theory Spec2Isabelle
  imports Complex_Main
begin

section \<open>JavaScript values\<close>

text \<open>
  A JavaScript Number is a double. The model keeps the four kinds of Number the
  code distinguishes (\<open>isNaN\<close>, \<open>isFinite\<close>) and idealises a finite double as the real
  it denotes; rounding of finite values is not modelled.
\<close>

datatype jsnum = Num real | PosInfinity | NegInfinity | NaN

fun isNaN :: "jsnum \<Rightarrow> bool" where
  "isNaN NaN = True"
| "isNaN _ = False"

fun isFinite :: "jsnum \<Rightarrow> bool" where
  "isFinite (Num _) = True"
| "isFinite _ = False"

text \<open>
  The values \<open>JSON.parse\<close> can produce, and \<open>undefined\<close> for a field that is missing.
  An object is the list of its own properties, key and value. A string is the list of
  the bytes of its UTF-8 form.
\<close>

datatype jsval =
    JUndefined
  | JNull
  | JBool bool
  | JNumber jsnum
  | JString string
  | JArray "jsval list"
  | JObject "(string \<times> jsval) list"

text \<open>The exceptions that the modelled code can meet.\<close>

datatype error = TypeError

definition errorMessage :: "error \<Rightarrow> string" where
  "errorMessage e = ''Cannot convert object to primitive value''"

definition startsWith :: "string \<Rightarrow> string \<Rightarrow> bool" where
  "startsWith s p = (take (length p) s = p)"

subsection \<open>parseFloat\<close>

text \<open>
  \<open>parseFloat\<close> (ECMA-262, 19.2.4) converts its argument to a string, strips leading
  white space and line terminators, and reads the longest prefix that is a
  \<open>StrDecimalLiteral\<close>: an optional sign, then \<^verbatim>\<open>Infinity\<close> or decimal digits with an
  optional fraction and an optional exponent. Without such a prefix the result is \<open>NaN\<close>.
\<close>

text \<open>
  The characters that are stripped, in UTF-8: TAB, LF, VT, FF, CR and SPACE in one byte;
  U+00A0 in two; U+1680, U+2000 to U+200A, U+2028, U+2029, U+202F, U+205F, U+3000 and
  U+FEFF in three. \<open>whiteSpaceLength s\<close> is the number of bytes of such a character at
  the head of \<open>s\<close>, and 0 when there is none.
\<close>

definition whiteSpaceLength :: "string \<Rightarrow> nat" where
  "whiteSpaceLength s =
     (if take 1 s \<in> set [[CHR 0x09], [CHR 0x0A], [CHR 0x0B], [CHR 0x0C], [CHR 0x0D], [CHR 0x20]]
      then 1
      else if take 2 s = [CHR 0xC2, CHR 0xA0] then 2
      else if take 3 s \<in> set
           [[CHR 0xE1, CHR 0x9A, CHR 0x80],
            [CHR 0xE2, CHR 0x80, CHR 0x80], [CHR 0xE2, CHR 0x80, CHR 0x81],
            [CHR 0xE2, CHR 0x80, CHR 0x82], [CHR 0xE2, CHR 0x80, CHR 0x83],
            [CHR 0xE2, CHR 0x80, CHR 0x84], [CHR 0xE2, CHR 0x80, CHR 0x85],
            [CHR 0xE2, CHR 0x80, CHR 0x86], [CHR 0xE2, CHR 0x80, CHR 0x87],
            [CHR 0xE2, CHR 0x80, CHR 0x88], [CHR 0xE2, CHR 0x80, CHR 0x89],
            [CHR 0xE2, CHR 0x80, CHR 0x8A],
            [CHR 0xE2, CHR 0x80, CHR 0xA8], [CHR 0xE2, CHR 0x80, CHR 0xA9],
            [CHR 0xE2, CHR 0x80, CHR 0xAF], [CHR 0xE2, CHR 0x81, CHR 0x9F],
            [CHR 0xE3, CHR 0x80, CHR 0x80], [CHR 0xEF, CHR 0xBB, CHR 0xBF]]
      then 3
      else 0)"

function trimStart :: "string \<Rightarrow> string" where
  "trimStart s = (if whiteSpaceLength s = 0 then s else trimStart (drop (whiteSpaceLength s) s))"
  by pat_completeness auto
termination
proof (relation "measure length")
  show "wf (measure length)" by simp
next
  fix s :: string
  assume n: "whiteSpaceLength s \<noteq> 0"
  have "s \<noteq> []"
  proof
    assume "s = []"
    then have "whiteSpaceLength s = 0" by (simp add: whiteSpaceLength_def)
    then show False using n by simp
  qed
  then have "length (drop (whiteSpaceLength s) s) < length s" using n by simp
  then show "(drop (whiteSpaceLength s) s, s) \<in> measure length" by simp
qed

declare trimStart.simps [simp del]

definition isDigit :: "char \<Rightarrow> bool" where
  "isDigit c = (48 \<le> (of_char c :: nat) \<and> (of_char c :: nat) \<le> 57)"

definition digitsValue :: "string \<Rightarrow> nat" where
  "digitsValue ds = foldl (\<lambda>a c. 10 * a + ((of_char c :: nat) - 48)) 0 ds"

definition signedInteger :: "string \<Rightarrow> int option" where
  "signedInteger r =
     (case r of
        [] \<Rightarrow> None
      | c # ds \<Rightarrow>
          if c = CHR ''+'' then
            (if takeWhile isDigit ds = [] then None
             else Some (int (digitsValue (takeWhile isDigit ds))))
          else if c = CHR ''-'' then
            (if takeWhile isDigit ds = [] then None
             else Some (- int (digitsValue (takeWhile isDigit ds))))
          else
            (if takeWhile isDigit r = [] then None
             else Some (int (digitsValue (takeWhile isDigit r)))))"

definition exponentPart :: "string \<Rightarrow> int" where
  "exponentPart r =
     (case r of
        [] \<Rightarrow> 0
      | e # ds \<Rightarrow>
          if e = CHR ''e'' \<or> e = CHR ''E'' then
            (case signedInteger ds of None \<Rightarrow> 0 | Some k \<Rightarrow> k)
          else 0)"

definition scale10 :: "real \<Rightarrow> int \<Rightarrow> real" where
  "scale10 m e = (if 0 \<le> e then m * 10 ^ nat e else m / 10 ^ nat (- e))"

text \<open>
  A decimal value rounds to an infinity exactly when its magnitude reaches
  \<open>2^1024 - 2^970\<close>, half-way between the largest double and \<open>2^1024\<close>.
\<close>

definition toDouble :: "real \<Rightarrow> jsnum" where
  "toDouble v =
     (if 2 ^ 1024 - 2 ^ 970 \<le> v then PosInfinity
      else if v \<le> - (2 ^ 1024 - 2 ^ 970) then NegInfinity
      else Num v)"

definition parseFloatString :: "string \<Rightarrow> jsnum" where
  "parseFloatString s =
     (let t = trimStart s;
          neg = (t \<noteq> [] \<and> hd t = CHR ''-'');
          u = (if t \<noteq> [] \<and> (hd t = CHR ''-'' \<or> hd t = CHR ''+'') then tl t else t)
      in if startsWith u ''Infinity'' then (if neg then NegInfinity else PosInfinity)
         else
           let ip = takeWhile isDigit u;
               r1 = dropWhile isDigit u;
               dot = (r1 \<noteq> [] \<and> hd r1 = CHR ''.'');
               fp = (if dot then takeWhile isDigit (tl r1) else []);
               r2 = (if dot then dropWhile isDigit (tl r1) else r1)
           in if ip = [] \<and> fp = [] then NaN
              else toDouble ((if neg then - 1 else 1) *
                     scale10 (real (digitsValue (ip @ fp))) (exponentPart r2 - int (length fp))))"

text \<open>
  The conversion to a string that \<open>parseFloat\<close> starts with can throw. An object made
  by \<open>JSON.parse\<close> converts through \<open>toString\<close> and then \<open>valueOf\<close>: with an own property
  \<^verbatim>\<open>toString\<close>, which is never a function, the inherited \<open>toString\<close> is hidden and
  \<open>valueOf\<close> gives no primitive, so the conversion throws a TypeError; without it the
  result is \<^verbatim>\<open>[object Object]\<close>. An array converts every element that is not
  \<open>null\<close> or \<open>undefined\<close> and joins the results with commas, so it throws when one of
  its elements does.
\<close>

fun throwsOnToString :: "jsval \<Rightarrow> bool" where
  "throwsOnToString (JObject props) = (''toString'' \<in> set (map fst props))"
| "throwsOnToString (JArray []) = False"
| "throwsOnToString (JArray (x # xs)) = (throwsOnToString x \<or> throwsOnToString (JArray xs))"
| "throwsOnToString JUndefined = False"
| "throwsOnToString JNull = False"
| "throwsOnToString (JBool b) = False"
| "throwsOnToString (JNumber n) = False"
| "throwsOnToString (JString s) = False"

text \<open>
  The number read off the string form of a value that has one. A Number prints and reads
  back as itself. An array prints as its elements joined by commas; no literal and no
  white space contains a comma, so the prefix read is the one of the first element (an
  empty array, and a first element \<open>null\<close> or \<open>undefined\<close>, print as the empty string).
  Booleans, \<open>null\<close>, \<open>undefined\<close> and objects print as words that are not literals.
\<close>

fun readNumber :: "jsval \<Rightarrow> jsnum" where
  "readNumber (JNumber n) = n"
| "readNumber (JString s) = parseFloatString s"
| "readNumber (JArray []) = NaN"
| "readNumber (JArray (x # xs)) = readNumber x"
| "readNumber JUndefined = NaN"
| "readNumber JNull = NaN"
| "readNumber (JBool b) = NaN"
| "readNumber (JObject props) = NaN"

definition parseFloat :: "jsval \<Rightarrow> error + jsnum" where
  "parseFloat v = (if throwsOnToString v then Inl TypeError else Inr (readNumber v))"

section \<open>The relay server\<close>

datatype deviceType = HMD | CONTROLLER0 | CONTROLLER1

fun OSC_PORTS :: "deviceType \<Rightarrow> nat" where
  "OSC_PORTS HMD = 7400"
| "OSC_PORTS CONTROLLER0 = 7401"
| "OSC_PORTS CONTROLLER1 = 7402"

definition getDeviceTypeFromAddress :: "string \<Rightarrow> deviceType" where
  "getDeviceTypeFromAddress address =
     (if startsWith address ''/hmd'' then HMD
      else if startsWith address ''/controller0'' then CONTROLLER0
      else if startsWith address ''/controller1'' then CONTROLLER1
      else HMD)"

text \<open>
  One outbound UDP port object per device (\<open>new osc.UDPPort\<close>); the remote address is the
  same constant for all, the remote port is the device's.
\<close>

record udpPort =
  remotePort :: nat

text \<open>A datagram handed to \<open>udpPort.send\<close>: every argument tagged \<^verbatim>\<open>f\<close>.\<close>

record oscMessage =
  oscAddress :: string
  oscArgs :: "jsnum list"

text \<open>The confirmation the server writes to a client that connects.\<close>

record connectionMessage =
  msgType :: string
  status :: string
  oscStatus :: string
  oscPorts :: "(string \<times> nat) list"

text \<open>What a pending \<open>setTimeout\<close> will call.\<close>

datatype timerAction = ReconnectOSC deviceType | InitOSCConnection

text \<open>
  The server's globals, and what it has put out: the timers it has set (delay in ms and
  callback), the datagrams it has sent (remote port and message), and the messages it has
  written to WebSocket clients. Logging and the per-device message statistics only feed
  the log and are left out.
\<close>

record server =
  oscUDPPorts :: "deviceType \<Rightarrow> udpPort option"
  oscConnected :: "deviceType \<Rightarrow> bool"
  oscMessageCount :: nat
  oscErrorCount :: nat
  lastOSCError :: "string option"
  timers :: "(nat \<times> timerAction) list"
  datagrams :: "(nat \<times> oscMessage) list"
  wsOutbox :: "connectionMessage list"

definition allDevices :: "deviceType list" where
  "allDevices = [HMD, CONTROLLER0, CONTROLLER1]"

text \<open>
  \<open>initOSCConnection\<close>: a device that has a port object is skipped; otherwise a port is
  created, its handlers are registered and it is opened. \<open>openThrows d\<close> says whether
  \<open>open()\<close> throws for device \<open>d\<close>; the exception is caught there.
\<close>

definition initDevice :: "(deviceType \<Rightarrow> bool) \<Rightarrow> server \<Rightarrow> deviceType \<Rightarrow> server" where
  "initDevice openThrows s d =
     (if oscUDPPorts s d \<noteq> None then s
      else
        let s1 = s\<lparr>oscUDPPorts := (oscUDPPorts s)(d := Some \<lparr>remotePort = OSC_PORTS d\<rparr>)\<rparr>
        in if openThrows d then s1\<lparr>oscConnected := (oscConnected s1)(d := False)\<rparr> else s1)"

definition initOSCConnection :: "(deviceType \<Rightarrow> bool) \<Rightarrow> server \<Rightarrow> server" where
  "initOSCConnection openThrows s = foldl (initDevice openThrows) s allDevices"

text \<open>The handlers registered on the port of device \<open>d\<close>.\<close>

definition onReady :: "deviceType \<Rightarrow> server \<Rightarrow> server" where
  "onReady d s = s\<lparr>oscConnected := (oscConnected s)(d := True)\<rparr>"

definition onError :: "deviceType \<Rightarrow> string \<Rightarrow> server \<Rightarrow> server" where
  "onError d message s =
     s\<lparr>oscConnected := (oscConnected s)(d := False),
       oscErrorCount := oscErrorCount s + 1,
       lastOSCError := Some message,
       timers := timers s @ [(5000, ReconnectOSC d)]\<rparr>"

definition onClose :: "deviceType \<Rightarrow> server \<Rightarrow> server" where
  "onClose d s = s\<lparr>oscConnected := (oscConnected s)(d := False)\<rparr>"

text \<open>
  \<open>reconnectOSC\<close>: with a device, that device only; without, all of them. An exception of
  \<open>close()\<close> is caught and the assignments after it run either way; the \<open>close\<close> event of
  the port being closed sets the same flag to the same value.
\<close>

definition resetDevice :: "server \<Rightarrow> deviceType \<Rightarrow> server" where
  "resetDevice s device =
     (let s1 = (if oscUDPPorts s device \<noteq> None
                then s\<lparr>oscUDPPorts := (oscUDPPorts s)(device := None)\<rparr> else s)
      in s1\<lparr>oscConnected := (oscConnected s1)(device := False)\<rparr>)"

definition reconnectOSC :: "deviceType option \<Rightarrow> server \<Rightarrow> server" where
  "reconnectOSC deviceType s =
     (let devicesToReconnect = (case deviceType of Some d \<Rightarrow> [d] | None \<Rightarrow> allDevices);
          s1 = foldl resetDevice s devicesToReconnect
      in s1\<lparr>timers := timers s1 @ [(1000, InitOSCConnection)]\<rparr>)"

text \<open>A timer fires: it leaves the pending list and its callback runs.\<close>

definition fireTimer :: "(deviceType \<Rightarrow> bool) \<Rightarrow> nat \<Rightarrow> server \<Rightarrow> server" where
  "fireTimer openThrows i s =
     (if i < length (timers s) then
        let s1 = s\<lparr>timers := take i (timers s) @ drop (Suc i) (timers s)\<rparr>
        in (case snd (timers s ! i) of
              ReconnectOSC d \<Rightarrow> reconnectOSC (Some d) s1
            | InitOSCConnection \<Rightarrow> initOSCConnection openThrows s1)
      else s)"

text \<open>
  \<open>sendOSC\<close>. \<open>sendThrows\<close> is the environment's part: \<open>None\<close> when \<open>udpPort.send\<close>
  returns, \<open>Some m\<close> when it throws an error with message \<open>m\<close>. The arguments are
  converted inside the same \<open>try\<close>, before the send. The result is the boolean the
  function returns and the state it leaves.
\<close>

text \<open>
  The callback of \<open>args.map\<close>: the float of one argument, or the exception of its
  conversion; and \<open>args.map\<close> itself, which stops at the first exception.
\<close>

definition encodeArg :: "jsval \<Rightarrow> error + jsnum" where
  "encodeArg v =
     (case parseFloat v of
        Inl e \<Rightarrow> Inl e
      | Inr num \<Rightarrow> Inr (if isNaN num then Num 0 else num))"

fun encodeArgs :: "jsval list \<Rightarrow> error + jsnum list" where
  "encodeArgs [] = Inr []"
| "encodeArgs (v # vs) =
     (case encodeArg v of
        Inl e \<Rightarrow> Inl e
      | Inr f \<Rightarrow> (case encodeArgs vs of Inl e \<Rightarrow> Inl e | Inr fs \<Rightarrow> Inr (f # fs)))"

text \<open>The \<open>catch\<close> block of \<open>sendOSC\<close>, for an error with message \<open>message\<close>.\<close>

definition sendFailed :: "string \<Rightarrow> deviceType \<Rightarrow> server \<Rightarrow> bool \<times> server" where
  "sendFailed message deviceType s =
     (let s1 = s\<lparr>oscErrorCount := oscErrorCount s + 1, lastOSCError := Some message\<rparr>
      in (False, if 10 < oscErrorCount s1 then reconnectOSC (Some deviceType) s1 else s1))"

definition sendOSC :: "string option \<Rightarrow> string \<Rightarrow> jsval list \<Rightarrow> server \<Rightarrow> bool \<times> server" where
  "sendOSC sendThrows address args s =
     (let deviceType = getDeviceTypeFromAddress address in
      case oscUDPPorts s deviceType of
        None \<Rightarrow> (False, s)
      | Some udp \<Rightarrow>
          if \<not> oscConnected s deviceType then (False, s)
          else
            (case encodeArgs args of
               Inl e \<Rightarrow> sendFailed (errorMessage e) deviceType s
             | Inr floats \<Rightarrow>
                 (case sendThrows of
                    None \<Rightarrow>
                      (True, s\<lparr>datagrams := datagrams s @
                                 [(remotePort udp, \<lparr>oscAddress = address, oscArgs = floats\<rparr>)],
                               oscMessageCount := oscMessageCount s + 1\<rparr>)
                  | Some message \<Rightarrow> sendFailed message deviceType s)))"

text \<open>
  \<open>handleOSCMessage\<close>. The result is \<open>None\<close> when the function returns before
  \<open>sendOSC\<close> (the message is dropped), \<open>Some (Inl e)\<close> when the exception \<open>e\<close> leaves
  it (the message handler of the WebSocket catches and logs it), and otherwise the
  arguments handed to \<open>sendOSC\<close> and what \<open>sendOSC\<close> returned.
\<close>

record wsMessage =
  address :: jsval
  args :: jsval

text \<open>The callback of \<open>args.filter\<close>, and \<open>args.filter\<close> with it.\<close>

definition validArg :: "jsval \<Rightarrow> error + bool" where
  "validArg arg =
     (case parseFloat arg of
        Inl e \<Rightarrow> Inl e
      | Inr num \<Rightarrow> Inr (\<not> isNaN num \<and> isFinite num))"

fun filterArgs :: "jsval list \<Rightarrow> error + jsval list" where
  "filterArgs [] = Inr []"
| "filterArgs (v # vs) =
     (case validArg v of
        Inl e \<Rightarrow> Inl e
      | Inr keep \<Rightarrow>
          (case filterArgs vs of
             Inl e \<Rightarrow> Inl e
           | Inr kept \<Rightarrow> Inr (if keep then v # kept else kept)))"

definition handleOSCMessage ::
  "string option \<Rightarrow> wsMessage \<Rightarrow> server
     \<Rightarrow> (error + jsval list \<times> bool) option \<times> server" where
  "handleOSCMessage sendThrows msg s =
     (case address msg of
        JString a \<Rightarrow>
          if a = [] then (None, s)
          else
            (case args msg of
               JArray xs \<Rightarrow>
                 (case filterArgs xs of
                    Inl e \<Rightarrow> (Some (Inl e), s)
                  | Inr validArgs \<Rightarrow>
                      let r = sendOSC sendThrows a validArgs s
                      in (Some (Inr (validArgs, fst r)), snd r))
             | _ \<Rightarrow> (None, s))
      | _ \<Rightarrow> (None, s))"

text \<open>
  A client connects: the server writes it the confirmation message, whose \<open>oscStatus\<close>
  says whether all three channels are connected.
\<close>

definition deviceName :: "deviceType \<Rightarrow> string" where
  "deviceName d = (case d of HMD \<Rightarrow> ''HMD'' | CONTROLLER0 \<Rightarrow> ''CONTROLLER0''
                   | CONTROLLER1 \<Rightarrow> ''CONTROLLER1'')"

definition onConnection :: "server \<Rightarrow> server" where
  "onConnection s =
     (let allConnected = list_all (oscConnected s) allDevices
      in s\<lparr>wsOutbox := wsOutbox s @
              [\<lparr>msgType = ''connection'', status = ''connected'',
                oscStatus = (if allConnected then ''ready'' else ''connecting''),
                oscPorts = map (\<lambda>d. (deviceName d, OSC_PORTS d)) allDevices\<rparr>]\<rparr>)"

section \<open>The capture client\<close>

subsection \<open>Angles\<close>

text \<open>
  \<open>normalizeAngle\<close> is two loops, one after the other; each is a recursive function of
  the angle, here a real number.
\<close>

function normalizeAngle_down :: "real \<Rightarrow> real" where
  "normalizeAngle_down angle = (if angle > 180 then normalizeAngle_down (angle - 360) else angle)"
  by pat_completeness auto
termination
proof (relation "measure (\<lambda>a. nat \<lceil>(a - 180) / 360\<rceil>)")
  show "wf (measure (\<lambda>a. nat \<lceil>(a - 180) / 360\<rceil>))" by simp
next
  fix angle :: real
  assume "180 < angle"
  then have pos: "0 < \<lceil>(angle - 180) / 360\<rceil>" by simp
  have e: "(angle - 360 - 180) / 360 = (angle - 180) / 360 - 1" by (simp add: field_simps)
  have c: "\<lceil>(angle - 360 - 180) / 360\<rceil> = \<lceil>(angle - 180) / 360\<rceil> - 1"
    unfolding e by (rule ceiling_diff_one)
  have lt: "nat \<lceil>(angle - 360 - 180) / 360\<rceil> < nat \<lceil>(angle - 180) / 360\<rceil>"
    unfolding c using pos by linarith
  show "(angle - 360, angle) \<in> measure (\<lambda>a. nat \<lceil>(a - 180) / 360\<rceil>)"
    unfolding in_measure by (rule lt)
qed

function normalizeAngle_up :: "real \<Rightarrow> real" where
  "normalizeAngle_up angle = (if angle < - 180 then normalizeAngle_up (angle + 360) else angle)"
  by pat_completeness auto
termination
proof (relation "measure (\<lambda>a. nat \<lceil>(- 180 - a) / 360\<rceil>)")
  show "wf (measure (\<lambda>a. nat \<lceil>(- 180 - a) / 360\<rceil>))" by simp
next
  fix angle :: real
  assume "angle < - 180"
  then have pos: "0 < \<lceil>(- 180 - angle) / 360\<rceil>" by simp
  have e: "(- 180 - (angle + 360)) / 360 = (- 180 - angle) / 360 - 1" by (simp add: field_simps)
  have c: "\<lceil>(- 180 - (angle + 360)) / 360\<rceil> = \<lceil>(- 180 - angle) / 360\<rceil> - 1"
    unfolding e by (rule ceiling_diff_one)
  have lt: "nat \<lceil>(- 180 - (angle + 360)) / 360\<rceil> < nat \<lceil>(- 180 - angle) / 360\<rceil>"
    unfolding c using pos by linarith
  show "(angle + 360, angle) \<in> measure (\<lambda>a. nat \<lceil>(- 180 - a) / 360\<rceil>)"
    unfolding in_measure by (rule lt)
qed

declare normalizeAngle_down.simps [simp del]
declare normalizeAngle_up.simps [simp del]

definition normalizeAngle :: "real \<Rightarrow> real" where
  "normalizeAngle angle = normalizeAngle_up (normalizeAngle_down angle)"

subsection \<open>Poses and wire messages\<close>

record position =
  px :: real
  py :: real
  pz :: real

record quaternion =
  qx :: real
  qy :: real
  qz :: real
  qw :: real

text \<open>A \<open>THREE.Euler\<close>: three angles in radians.\<close>

record euler =
  ex :: real
  ey :: real
  ez :: real

record pose =
  posePosition :: position
  poseOrientation :: quaternion

record eulerDegrees =
  yaw :: real
  pitch :: real
  roll :: real

text \<open>
  \<open>THREE.Euler.setFromQuaternion(q, 'YXZ')\<close> belongs to the three.js library; the client
  functions take it as the parameter \<open>setFromQuaternion\<close>.
\<close>

definition quaternionToEulerDegrees :: "(quaternion \<Rightarrow> euler) \<Rightarrow> quaternion \<Rightarrow> eulerDegrees" where
  "quaternionToEulerDegrees setFromQuaternion quat =
     (let e = setFromQuaternion quat
      in \<lparr>yaw = ey e * 180 / pi, pitch = ex e * 180 / pi, roll = ez e * 180 / pi\<rparr>)"

record wireMessage =
  wireAddress :: string
  wireArgs :: "real list"

text \<open>
  \<open>sendOSCData\<close>: the payload given to \<open>socket.send\<close>, or nothing when the socket is
  not open. On real numbers \<open>Number(v) || 0\<close> is \<open>v\<close>.
\<close>

definition sendOSCData ::
  "(quaternion \<Rightarrow> euler) \<Rightarrow> bool \<Rightarrow> string \<Rightarrow> position \<Rightarrow> quaternion \<Rightarrow> bool \<Rightarrow> wireMessage list" where
  "sendOSCData setFromQuaternion socketOpen addr pos orientation btnPressed =
     (if \<not> socketOpen then []
      else
        let eulerDeg = quaternionToEulerDegrees setFromQuaternion orientation;
            yaw' = normalizeAngle (yaw eulerDeg);
            pitch' = normalizeAngle (pitch eulerDeg);
            roll' = normalizeAngle (roll eulerDeg);
            args6 = [px pos, py pos, pz pos, yaw', pitch', roll']
        in [\<lparr>wireAddress = addr,
             wireArgs = (if startsWith addr ''/controller''
                         then args6 @ [if btnPressed then 1 else 0] else args6)\<rparr>])"

subsection \<open>Client state\<close>

datatype readyState = CONNECTING | OPEN | CLOSING | CLOSED

text \<open>
  The text of a position or rotation element of the page: \<^verbatim>\<open>N/A\<close>, or three numbers
  (their formatting by \<open>toFixed\<close> is not modelled).
\<close>

datatype text3 = NotAvailable | Shown real real real

record display =
  hmdPosEl :: text3
  hmdRotEl :: text3
  ctrl0PosEl :: text3
  ctrl0RotEl :: text3
  ctrl0BtnEl :: string
  ctrl1PosEl :: text3
  ctrl1RotEl :: text3
  ctrl1BtnEl :: string

record marker =
  markerPosition :: position
  markerQuaternion :: quaternion
  visible :: bool

text \<open>
  The globals of the page. \<open>sockets\<close> lists the ready state of every WebSocket object
  created so far; the variable \<open>socket\<close> refers to the last one. \<open>reconnectTimers\<close> are
  the delays of the pending \<open>setTimeout(initWebSocket, _)\<close> calls.
\<close>

record client =
  oscEnabled :: bool
  lastOSCSendTime :: int
  SERVER_URL :: "string option"
  sockets :: "readyState list"
  reconnectTimers :: "nat list"
  wsStatus :: string
  hmdMarker :: "marker option"
  controllerMarkers :: "marker list"
  display :: display

definition OSC_SEND_INTERVAL :: int where
  "OSC_SEND_INTERVAL = 32"

text \<open>\<open>socket && socket.readyState === WebSocket.OPEN\<close>\<close>

definition socketOpen :: "client \<Rightarrow> bool" where
  "socketOpen st = (sockets st \<noteq> [] \<and> last (sockets st) = OPEN)"

subsection \<open>The transport channel\<close>

definition initWebSocket :: "client \<Rightarrow> client" where
  "initWebSocket st =
     (if SERVER_URL st = None then st\<lparr>wsStatus := ''Error: Server URL not set''\<rparr>
      else if sockets st \<noteq> [] \<and> (last (sockets st) = OPEN \<or> last (sockets st) = CONNECTING)
      then st
      else st\<lparr>sockets := sockets st @ [CONNECTING]\<rparr>)"

text \<open>
  The handlers that \<open>initWebSocket\<close> registers on the socket it creates.
\<close>

definition onopen :: "client \<Rightarrow> client" where
  "onopen st = st\<lparr>wsStatus := ''Connected''\<rparr>"

definition onclose :: "client \<Rightarrow> client" where
  "onclose st =
     st\<lparr>wsStatus := ''Disconnected. Retrying...'',
        reconnectTimers := reconnectTimers st @ [3000]\<rparr>"

definition onerror :: "client \<Rightarrow> client" where
  "onerror st = st\<lparr>wsStatus := ''Error''\<rparr>"

text \<open>
  The lifecycle events of socket number \<open>i\<close>, as a browser delivers them. When the
  connection is established the ready state becomes OPEN and \<open>open\<close> fires. When it is
  closed the ready state becomes CLOSED and \<open>close\<close> fires. When it fails the ready
  state becomes CLOSED, \<open>error\<close> fires and \<open>close\<close> fires after it, in the same task:
  an \<open>error\<close> event never comes alone.
\<close>

definition socketOpened :: "nat \<Rightarrow> client \<Rightarrow> client" where
  "socketOpened i st = onopen (st\<lparr>sockets := (sockets st)[i := OPEN]\<rparr>)"

definition socketClosed :: "nat \<Rightarrow> client \<Rightarrow> client" where
  "socketClosed i st = onclose (st\<lparr>sockets := (sockets st)[i := CLOSED]\<rparr>)"

definition socketFailed :: "nat \<Rightarrow> client \<Rightarrow> client" where
  "socketFailed i st = onclose (onerror (st\<lparr>sockets := (sockets st)[i := CLOSED]\<rparr>))"

definition fireReconnectTimer :: "nat \<Rightarrow> client \<Rightarrow> client" where
  "fireReconnectTimer k st =
     (if k < length (reconnectTimers st) then
        initWebSocket
          (st\<lparr>reconnectTimers := take k (reconnectTimers st) @ drop (Suc k) (reconnectTimers st)\<rparr>)
      else st)"

definition toggleOSC :: "client \<Rightarrow> client" where
  "toggleOSC st = st\<lparr>oscEnabled := \<not> oscEnabled st\<rparr>"

subsection \<open>The page display\<close>

datatype displayId = Hmd | Ctrl nat

definition rotText :: "euler \<Rightarrow> text3" where
  "rotText e = Shown (ey e * 180 / pi) (ex e * 180 / pi) (ez e * 180 / pi)"

definition posText :: "position \<Rightarrow> text3" where
  "posText p = Shown (px p) (py p) (pz p)"

definition btnText :: "bool \<Rightarrow> string" where
  "btnText btnPressed = (if btnPressed then ''Pressed'' else ''Released'')"

text \<open>
  \<open>updateDisplay\<close>, on a page that has all its elements (as \<^verbatim>\<open>index.html\<close> does):
  \<^verbatim>\<open>hmd\<close> has no button element; an id other than \<^verbatim>\<open>hmd\<close>, \<^verbatim>\<open>ctrl0\<close>,
  \<^verbatim>\<open>ctrl1\<close> selects no element.
\<close>

fun updateDisplay :: "displayId \<Rightarrow> position \<Rightarrow> euler \<Rightarrow> bool \<Rightarrow> display \<Rightarrow> display" where
  "updateDisplay Hmd pos e btnPressed d = d\<lparr>hmdPosEl := posText pos, hmdRotEl := rotText e\<rparr>"
| "updateDisplay (Ctrl i) pos e btnPressed d =
     (if i = 0 then
        d\<lparr>ctrl0PosEl := posText pos, ctrl0RotEl := rotText e, ctrl0BtnEl := btnText btnPressed\<rparr>
      else if i = 1 then
        d\<lparr>ctrl1PosEl := posText pos, ctrl1RotEl := rotText e, ctrl1BtnEl := btnText btnPressed\<rparr>
      else d)"

subsection \<open>Frame-driven sampling\<close>

datatype grip = NoGripSpace | NoGripPose | GripPose pose

record inputSource =
  gamepadButtons :: "bool list option"
  grip :: grip

text \<open>
  What one call of \<open>renderXRFrame\<close> reads from the browser. \<open>usable\<close> stands for the
  guards at the top: the session, the frame, the renderer and the reference space are
  all there.
\<close>

record xrFrame =
  usable :: bool
  viewerPose :: "pose option"
  inputSources :: "inputSource list"

definition buttonPressed :: "inputSource \<Rightarrow> bool" where
  "buttonPressed source =
     (case gamepadButtons source of
        None \<Rightarrow> False
      | Some buttons \<Rightarrow> list_ex (\<lambda>pressed. pressed) (take 6 buttons))"

text \<open>The template \<^verbatim>\<open>/controller${i}/pose\<close>; \<open>i\<close> is 0 or 1 in both loops that use it.\<close>

definition controllerAddress :: "nat \<Rightarrow> string" where
  "controllerAddress i = ''/controller'' @ (if i = 0 then ''0'' else ''1'') @ ''/pose''"

definition zeroPosition :: position where
  "zeroPosition = \<lparr>px = 0, py = 0, pz = 0\<rparr>"

definition zeroEuler :: euler where
  "zeroEuler = \<lparr>ex = 0, ey = 0, ez = 0\<rparr>"

text \<open>One round of the controller loop; the accumulator is the payloads sent and the state.\<close>

definition frameController ::
  "(quaternion \<Rightarrow> euler) \<Rightarrow> bool \<Rightarrow> inputSource list \<Rightarrow> wireMessage list \<times> client \<Rightarrow> nat
     \<Rightarrow> wireMessage list \<times> client" where
  "frameController setFromQuaternion shouldSendOSC sources acc i =
     (let out = fst acc; st = snd acc in
      if length (controllerMarkers st) \<le> i then acc
      else
        let source = sources ! i;
            btnPressed = buttonPressed source
        in case grip source of
             GripPose gripPose \<Rightarrow>
               let pos = posePosition gripPose;
                   quat = poseOrientation gripPose
               in (if shouldSendOSC
                   then out @ sendOSCData setFromQuaternion (socketOpen st)
                                (controllerAddress i) pos quat btnPressed
                   else out,
                   st\<lparr>controllerMarkers := (controllerMarkers st)
                          [i := \<lparr>markerPosition = pos, markerQuaternion = quat, visible = True\<rparr>],
                      display := updateDisplay (Ctrl i) pos (setFromQuaternion quat) btnPressed
                                   (display st)\<rparr>)
           | _ \<Rightarrow>
               (out,
                st\<lparr>controllerMarkers := (controllerMarkers st)
                       [i := (controllerMarkers st ! i)\<lparr>visible := False\<rparr>],
                   display := updateDisplay (Ctrl i) zeroPosition zeroEuler False (display st)\<rparr>))"

text \<open>One round of the loop that hides the markers of controllers that are not connected.\<close>

definition frameHide :: "client \<Rightarrow> nat \<Rightarrow> client" where
  "frameHide st i =
     (if i < length (controllerMarkers st) then
        st\<lparr>controllerMarkers := (controllerMarkers st)
               [i := (controllerMarkers st ! i)\<lparr>visible := False\<rparr>],
           display := updateDisplay (Ctrl i) zeroPosition zeroEuler False (display st)\<rparr>
      else st)"

definition frameHmd ::
  "(quaternion \<Rightarrow> euler) \<Rightarrow> bool \<Rightarrow> pose option \<Rightarrow> client \<Rightarrow> wireMessage list \<times> client" where
  "frameHmd setFromQuaternion shouldSendOSC viewer st =
     (case viewer of
        None \<Rightarrow> ([], st)
      | Some p \<Rightarrow>
          let pos = posePosition p;
              quat = poseOrientation p
          in (if shouldSendOSC
              then sendOSCData setFromQuaternion (socketOpen st) ''/hmd/pose'' pos quat False
              else [],
              st\<lparr>hmdMarker := map_option
                     (\<lambda>m. m\<lparr>markerPosition := pos, markerQuaternion := quat\<rparr>) (hmdMarker st),
                 display := updateDisplay Hmd pos (setFromQuaternion quat) False (display st)\<rparr>))"

text \<open>
  \<open>renderXRFrame\<close>, with \<open>currentTime\<close> the value of \<open>Date.now()\<close>. The result is the
  payloads given to \<open>socket.send\<close>, in order, and the state left.
\<close>

definition renderXRFrame ::
  "(quaternion \<Rightarrow> euler) \<Rightarrow> int \<Rightarrow> xrFrame \<Rightarrow> client \<Rightarrow> wireMessage list \<times> client" where
  "renderXRFrame setFromQuaternion currentTime frame st =
     (if \<not> usable frame then ([], st)
      else
        let shouldSendOSC = (oscEnabled st \<and> socketOpen st \<and>
                             currentTime - lastOSCSendTime st \<ge> OSC_SEND_INTERVAL);
            acc1 = frameHmd setFromQuaternion shouldSendOSC (viewerPose frame) st;
            acc2 = foldl (frameController setFromQuaternion shouldSendOSC (inputSources frame)) acc1
                     [0 ..< min (length (inputSources frame)) 2];
            st3 = foldl frameHide (snd acc2)
                     [length (inputSources frame) ..< length (controllerMarkers (snd acc2))]
        in (fst acc2, if shouldSendOSC then st3\<lparr>lastOSCSendTime := currentTime\<rparr> else st3))"

subsection \<open>Clock-driven sampling\<close>

text \<open>
  The callback of the 60 Hz interval set by \<open>startDataSampling\<close>. \<open>presenting\<close> stands for
  its guard (an XR session is presenting). The poses are those of the preview markers.
\<close>

definition samplingController ::
  "(quaternion \<Rightarrow> euler) \<Rightarrow> wireMessage list \<times> client \<Rightarrow> nat \<Rightarrow> wireMessage list \<times> client" where
  "samplingController setFromQuaternion acc i =
     (let out = fst acc; st = snd acc in
      if i < length (controllerMarkers st) then
        let m = controllerMarkers st ! i;
            pos = markerPosition m;
            quat = markerQuaternion m
        in (if oscEnabled st \<and> socketOpen st
            then out @ sendOSCData setFromQuaternion (socketOpen st)
                         (controllerAddress i) pos quat False
            else out,
            st\<lparr>display := updateDisplay (Ctrl i) pos (setFromQuaternion quat) False (display st)\<rparr>)
      else acc)"

definition samplingTick :: "(quaternion \<Rightarrow> euler) \<Rightarrow> bool \<Rightarrow> client \<Rightarrow> wireMessage list \<times> client" where
  "samplingTick setFromQuaternion presenting st =
     (if presenting then ([], st)
      else
        let acc1 = (case hmdMarker st of
                      None \<Rightarrow> ([], st)
                    | Some m \<Rightarrow>
                        (if oscEnabled st \<and> socketOpen st
                         then sendOSCData setFromQuaternion (socketOpen st) ''/hmd/pose''
                                (markerPosition m) (markerQuaternion m) False
                         else [],
                         st\<lparr>display := updateDisplay Hmd (markerPosition m)
                                          (setFromQuaternion (markerQuaternion m)) False
                                          (display st)\<rparr>))
        in foldl (samplingController setFromQuaternion) acc1 [0 ..< 2])"

subsection \<open>Runs of the client in an immersive session\<close>

datatype clientEvent =
    XRFrame int xrFrame
  | ToggleOSC
  | SocketOpened nat
  | SocketClosed nat
  | SocketFailed nat
  | ReconnectTimer nat

fun clientStep :: "(quaternion \<Rightarrow> euler) \<Rightarrow> clientEvent \<Rightarrow> client \<Rightarrow> client" where
  "clientStep q (XRFrame t f) st = snd (renderXRFrame q t f st)"
| "clientStep q ToggleOSC st = toggleOSC st"
| "clientStep q (SocketOpened i) st = socketOpened i st"
| "clientStep q (SocketClosed i) st = socketClosed i st"
| "clientStep q (SocketFailed i) st = socketFailed i st"
| "clientStep q (ReconnectTimer k) st = fireReconnectTimer k st"

fun sent :: "(quaternion \<Rightarrow> euler) \<Rightarrow> clientEvent \<Rightarrow> client \<Rightarrow> (int \<times> wireMessage list) list" where
  "sent q (XRFrame t f) st = [(t, fst (renderXRFrame q t f st))]"
| "sent q _ st = []"

text \<open>The payloads sent by each frame of a run, with the time of the frame.\<close>

fun frameRun :: "(quaternion \<Rightarrow> euler) \<Rightarrow> client \<Rightarrow> clientEvent list \<Rightarrow> (int \<times> wireMessage list) list" where
  "frameRun q st [] = []"
| "frameRun q st (ev # evs) = sent q ev st @ frameRun q (clientStep q ev st) evs"

text \<open>The payloads of \<open>n\<close> consecutive callbacks of the sampling interval.\<close>

fun samplingRun :: "(quaternion \<Rightarrow> euler) \<Rightarrow> client \<Rightarrow> nat \<Rightarrow> wireMessage list list" where
  "samplingRun q st 0 = []"
| "samplingRun q st (Suc n) =
     fst (samplingTick q False st) # samplingRun q (snd (samplingTick q False st)) n"

section \<open>Notions used in the properties\<close>

text \<open>The throttle gate of \<open>renderXRFrame\<close> at time \<open>t\<close>.\<close>

definition gate :: "int \<Rightarrow> client \<Rightarrow> bool" where
  "gate t st = (oscEnabled st \<and> socketOpen st \<and> OSC_SEND_INTERVAL \<le> t - lastOSCSendTime st)"

text \<open>A list of times, each at least 32 ms after the one before, the first after \<open>l\<close>.\<close>

fun spaced :: "int \<Rightarrow> int list \<Rightarrow> bool" where
  "spaced l [] = True"
| "spaced l (c # cs) = (l + 32 \<le> c \<and> spaced c cs)"

definition sendTimes :: "(int \<times> wireMessage list) list \<Rightarrow> int list" where
  "sendTimes run = map fst (filter (\<lambda>r. snd r \<noteq> []) run)"

text \<open>The frames whose time lies in the second that starts at \<open>t0\<close>.\<close>

definition inWindow :: "int \<Rightarrow> int \<times> wireMessage list \<Rightarrow> bool" where
  "inWindow t0 r = (t0 \<le> fst r \<and> fst r < t0 + 1000)"

text \<open>What the page shows for controller \<open>i\<close> (0 or 1): position, rotation, button.\<close>

definition ctrlDisplay :: "nat \<Rightarrow> display \<Rightarrow> text3 \<times> text3 \<times> string" where
  "ctrlDisplay i d =
     (if i = 0 then (ctrl0PosEl d, ctrl0RotEl d, ctrl0BtnEl d)
      else (ctrl1PosEl d, ctrl1RotEl d, ctrl1BtnEl d))"

text \<open>
  The reading of the router's filter as "keep the finite numbers": an element that is a
  Number and finite. It is compared with \<open>filterArgs\<close>, the filter of the code.
\<close>

definition spec_finiteNumeric :: "jsval \<Rightarrow> bool" where
  "spec_finiteNumeric v = (case v of JNumber n \<Rightarrow> isFinite n | _ \<Rightarrow> False)"

text \<open>
  One reconnect cycle of the client: the current socket fails (\<open>failed\<close>) or is closed,
  then the timer fires. \<open>retryCycles\<close> runs one cycle for each element of a list.
\<close>

definition retryCycle :: "client \<Rightarrow> bool \<Rightarrow> client" where
  "retryCycle st failed =
     fireReconnectTimer 0
       ((if failed then socketFailed else socketClosed) (length (sockets st) - 1) st)"

definition retryCycles :: "bool list \<Rightarrow> client \<Rightarrow> client" where
  "retryCycles kinds st = foldl retryCycle st kinds"

subsection \<open>Concrete states and inputs\<close>

definition readyServer :: server where
  "readyServer =
     \<lparr>oscUDPPorts = (\<lambda>d. Some \<lparr>remotePort = OSC_PORTS d\<rparr>), oscConnected = (\<lambda>d. True),
      oscMessageCount = 0, oscErrorCount = 0, lastOSCError = None,
      timers = [], datagrams = [], wsOutbox = []\<rparr>"

definition identityQuaternion :: quaternion where
  "identityQuaternion = \<lparr>qx = 0, qy = 0, qz = 0, qw = 1\<rparr>"

definition restMarker :: marker where
  "restMarker = \<lparr>markerPosition = zeroPosition, markerQuaternion = identityQuaternion, visible = False\<rparr>"

definition blankDisplay :: display where
  "blankDisplay =
     \<lparr>hmdPosEl = NotAvailable, hmdRotEl = NotAvailable,
      ctrl0PosEl = NotAvailable, ctrl0RotEl = NotAvailable, ctrl0BtnEl = ''N/A'',
      ctrl1PosEl = NotAvailable, ctrl1RotEl = NotAvailable, ctrl1BtnEl = ''N/A''\<rparr>"

text \<open>A page with streaming enabled, its socket open and the preview scene set up.\<close>

definition streamingClient :: client where
  "streamingClient =
     \<lparr>oscEnabled = True, lastOSCSendTime = 0, SERVER_URL = Some ''wss://192.168.1.104:8443'',
      sockets = [OPEN], reconnectTimers = [], wsStatus = ''Connected'',
      hmdMarker = Some restMarker, controllerMarkers = [restMarker, restMarker],
      display = blankDisplay\<rparr>"

text \<open>A page whose first socket is still connecting.\<close>

definition connectingClient :: client where
  "connectingClient = streamingClient\<lparr>sockets := [CONNECTING], wsStatus := ''Disconnected''\<rparr>"

definition standingPose :: pose where
  "standingPose = \<lparr>posePosition = \<lparr>px = 0, py = 8 / 5, pz = 0\<rparr>, poseOrientation = identityQuaternion\<rparr>"

text \<open>A stand-in for three.js that maps every quaternion to the zero angles.\<close>

definition flatEuler :: "quaternion \<Rightarrow> euler" where
  "flatEuler quat = zeroEuler"

text \<open>A frame with a viewer pose and two tracked controllers.\<close>

definition fullFrame :: xrFrame where
  "fullFrame =
     \<lparr>usable = True, viewerPose = Some standingPose,
      inputSources = [\<lparr>gamepadButtons = Some [False, True], grip = GripPose standingPose\<rparr>,
                      \<lparr>gamepadButtons = None, grip = GripPose standingPose\<rparr>]\<rparr>"

text \<open>A frame with a viewer pose and one controller whose grip pose is missing.\<close>

definition lostGripFrame :: xrFrame where
  "lostGripFrame =
     \<lparr>usable = True, viewerPose = Some standingPose,
      inputSources = [\<lparr>gamepadButtons = Some [True], grip = NoGripPose\<rparr>]\<rparr>"

text \<open>The arguments of an HMD message and of a controller message, as parsed from JSON.\<close>

definition sixArgs :: "jsval list" where
  "sixArgs = map (\<lambda>r. JNumber (Num r)) [0, 8 / 5, 0, 0, 0, 0]"

definition sevenArgs :: "jsval list" where
  "sevenArgs = map (\<lambda>r. JNumber (Num r)) [0, 1, 0, 0, 0, 0, 1]"

text \<open>\<open>n\<close> frames, 32 ms apart from time \<open>t\<close> on, each with all three poses.\<close>

fun burst :: "int \<Rightarrow> nat \<Rightarrow> clientEvent list" where
  "burst t 0 = []"
| "burst t (Suc n) = XRFrame t fullFrame # burst (t + 32) n"

text \<open>A page that streams: enabled, socket open, both controller markers set up.\<close>

definition streaming :: "client \<Rightarrow> bool" where
  "streaming st = (oscEnabled st \<and> socketOpen st \<and> length (controllerMarkers st) = 2)"

text \<open>The time of each frame of a run with the number of payloads it sent.\<close>

definition counts :: "(int \<times> wireMessage list) list \<Rightarrow> (int \<times> nat) list" where
  "counts run = map (\<lambda>r. (fst r, length (snd r))) run"

text \<open>What the page shows for a controller that is not tracked.\<close>

definition shownAbsent :: "text3 \<times> text3 \<times> string" where
  "shownAbsent = (Shown 0 0 0, Shown 0 0 0, ''Released'')"

text \<open>\<open>parseFloat\<close> returns a finite number for the value.\<close>

definition readsFinite :: "jsval \<Rightarrow> bool" where
  "readsFinite v = (case parseFloat v of Inl e \<Rightarrow> False | Inr num \<Rightarrow> isFinite num)"

text \<open>The conversion to a string throws for no element of the list.\<close>

definition allConvert :: "jsval list \<Rightarrow> bool" where
  "allConvert vs = (\<not> list_ex throwsOnToString vs)"

text \<open>What a client that connects in state \<open>s\<close> is told about the channels.\<close>

definition reportedStatus :: "server \<Rightarrow> string" where
  "reportedStatus s = oscStatus (last (wsOutbox (onConnection s)))"

text \<open>A JSON object with an own property \<^verbatim>\<open>toString\<close>.\<close>

definition toStringObject :: jsval where
  "toStringObject = JObject [(''toString'', JNumber (Num 0))]"

section \<open>The message router\<close>

lemma whiteSpaceLength_plain:
  "c \<notin> set [CHR 0x09, CHR 0x0A, CHR 0x0B, CHR 0x0C, CHR 0x0D, CHR 0x20,
              CHR 0xC2, CHR 0xE1, CHR 0xE2, CHR 0xE3, CHR 0xEF] \<Longrightarrow> whiteSpaceLength (c # r) = 0"
  by (cases r; cases "tl r") (auto simp: whiteSpaceLength_def)

lemma trimStart_plain:
  "c \<notin> set [CHR 0x09, CHR 0x0A, CHR 0x0B, CHR 0x0C, CHR 0x0D, CHR 0x20,
              CHR 0xC2, CHR 0xE1, CHR 0xE2, CHR 0xE3, CHR 0xEF] \<Longrightarrow> trimStart (c # r) = c # r"
  using whiteSpaceLength_plain [of c r] by (simp add: trimStart.simps)

lemmas parse_defs = parseFloatString_def trimStart_plain isDigit_def startsWith_def digitsValue_def
  exponentPart_def signedInteger_def scale10_def toDouble_def

lemma startsWith_shorter:
  "startsWith a p \<Longrightarrow> n \<le> length p \<Longrightarrow> take n a = take n p"
  unfolding startsWith_def by (metis min.absorb1 take_take)

lemma controller_not_hmd: "startsWith a (''/controller'' @ r) \<Longrightarrow> \<not> startsWith a ''/hmd''"
proof
  assume c: "startsWith a (''/controller'' @ r)" and h: "startsWith a ''/hmd''"
  have "take 2 a = take 2 (''/controller'' @ r)" using startsWith_shorter [OF c, of 2] by simp
  moreover have "take 2 a = take 2 ''/hmd''" using startsWith_shorter [OF h, of 2] by simp
  ultimately show False by simp
qed

lemma controller0_not_controller1:
  "startsWith a ''/controller0'' \<Longrightarrow> \<not> startsWith a ''/controller1''"
  by (auto simp: startsWith_def)

lemma resetDevice_fields:
  "oscUDPPorts (resetDevice s d) = (oscUDPPorts s)(d := None) \<and>
   oscConnected (resetDevice s d) = (oscConnected s)(d := False) \<and>
   timers (resetDevice s d) = timers s \<and> wsOutbox (resetDevice s d) = wsOutbox s \<and>
   datagrams (resetDevice s d) = datagrams s \<and> oscErrorCount (resetDevice s d) = oscErrorCount s"
  by (auto simp: resetDevice_def Let_def)

lemma reconnectOSC_one:
  "oscUDPPorts (reconnectOSC (Some d) s) = (oscUDPPorts s)(d := None) \<and>
   oscConnected (reconnectOSC (Some d) s) = (oscConnected s)(d := False) \<and>
   timers (reconnectOSC (Some d) s) = timers s @ [(1000, InitOSCConnection)] \<and>
   wsOutbox (reconnectOSC (Some d) s) = wsOutbox s \<and>
   datagrams (reconnectOSC (Some d) s) = datagrams s \<and>
   oscErrorCount (reconnectOSC (Some d) s) = oscErrorCount s"
  by (simp add: reconnectOSC_def Let_def resetDevice_fields)

lemma encodeArg_number: "encodeArg (JNumber (Num r)) = Inr (Num r)"
  by (simp add: encodeArg_def parseFloat_def)

lemma encodeArgs_sixArgs: "encodeArgs sixArgs = Inr [Num 0, Num (8 / 5), Num 0, Num 0, Num 0, Num 0]"
  by (simp add: sixArgs_def encodeArg_number)

lemma encodeArgs_sevenArgs:
  "encodeArgs sevenArgs = Inr [Num 0, Num 1, Num 0, Num 0, Num 0, Num 0, Num 1]"
  by (simp add: sevenArgs_def encodeArg_number)

lemma length_encodeArgs: "encodeArgs xs = Inr floats \<Longrightarrow> length floats = length xs"
  by (induction xs arbitrary: floats) (auto split: sum.splits)

lemma sendOSC_ready:
  assumes "oscUDPPorts s (getDeviceTypeFromAddress a) = Some udp"
      and "oscConnected s (getDeviceTypeFromAddress a)"
      and "encodeArgs xs = Inr floats"
  shows "sendOSC None a xs s =
           (True, s\<lparr>datagrams := datagrams s @ [(remotePort udp, \<lparr>oscAddress = a, oscArgs = floats\<rparr>)],
                    oscMessageCount := oscMessageCount s + 1\<rparr>)"
  using assms by (simp add: sendOSC_def)

lemma sendOSC_not_ready:
  assumes "oscUDPPorts s (getDeviceTypeFromAddress a) = None \<or> \<not> oscConnected s (getDeviceTypeFromAddress a)"
  shows "sendOSC t a xs s = (False, s)"
  using assms by (auto simp: sendOSC_def Let_def split: option.splits)

lemma device_controller0: "getDeviceTypeFromAddress ''/controller0/pose'' = CONTROLLER0"
  by (simp add: getDeviceTypeFromAddress_def startsWith_def)

lemma device_hmd: "getDeviceTypeFromAddress ''/hmd/pose'' = HMD"
  by (simp add: getDeviceTypeFromAddress_def startsWith_def)

lemma device_unknown: "getDeviceTypeFromAddress ''/unknown/pose'' = HMD"
  by (simp add: getDeviceTypeFromAddress_def startsWith_def)

text \<open>
  C3. The router classifies an address by its prefix: \<^verbatim>\<open>/hmd\<close> gives HMD,
  \<^verbatim>\<open>/controller0\<close> gives CONTROLLER0, \<^verbatim>\<open>/controller1\<close> gives CONTROLLER1 and
  every other address gives HMD. The three prefixes exclude each other, so the order of
  the tests plays no role. \<^verbatim>\<open>/controller0/pose\<close> goes out on the port of CONTROLLER0
  and \<^verbatim>\<open>/unknown/pose\<close> on the port of HMD.
\<close>

theorem C3_routing_by_prefix:
  "(startsWith a ''/hmd'' \<longrightarrow> getDeviceTypeFromAddress a = HMD) \<and>
   (startsWith a ''/controller0'' \<longrightarrow> getDeviceTypeFromAddress a = CONTROLLER0) \<and>
   (startsWith a ''/controller1'' \<longrightarrow> getDeviceTypeFromAddress a = CONTROLLER1) \<and>
   (\<not> startsWith a ''/hmd'' \<and> \<not> startsWith a ''/controller0'' \<and> \<not> startsWith a ''/controller1''
      \<longrightarrow> getDeviceTypeFromAddress a = HMD) \<and>
   getDeviceTypeFromAddress ''/controller0/pose'' = CONTROLLER0 \<and>
   getDeviceTypeFromAddress ''/unknown/pose'' = HMD \<and>
   map fst (datagrams (snd (sendOSC None ''/controller0/pose'' sevenArgs readyServer))) = [OSC_PORTS CONTROLLER0] \<and>
   map fst (datagrams (snd (sendOSC None ''/unknown/pose'' sixArgs readyServer))) = [OSC_PORTS HMD]"
proof -
  have 1: "startsWith a ''/controller0'' \<Longrightarrow> \<not> startsWith a ''/hmd''"
    using controller_not_hmd [of a "''0''"] by simp
  have 2: "startsWith a ''/controller1'' \<Longrightarrow> \<not> startsWith a ''/hmd''"
    using controller_not_hmd [of a "''1''"] by simp
  have 5: "map fst (datagrams (snd (sendOSC None ''/controller0/pose'' sevenArgs readyServer))) = [OSC_PORTS CONTROLLER0]"
    by (simp add: sendOSC_def device_controller0 readyServer_def encodeArgs_sevenArgs)
  have 6: "map fst (datagrams (snd (sendOSC None ''/unknown/pose'' sixArgs readyServer))) = [OSC_PORTS HMD]"
    by (simp add: sendOSC_def device_unknown readyServer_def encodeArgs_sixArgs)
  have 7: "getDeviceTypeFromAddress a =
     (if startsWith a ''/hmd'' then HMD
      else if startsWith a ''/controller0'' then CONTROLLER0
      else if startsWith a ''/controller1'' then CONTROLLER1
      else HMD)" by (simp add: getDeviceTypeFromAddress_def)
  show ?thesis
    unfolding 5 6 device_controller0 device_unknown
    using 1 2 controller0_not_controller1 [of a] by (simp add: 7)
qed

theorem C3_routing_by_prefix_witness:
  "startsWith ''/controller1/pose'' ''/controller1'' \<and>
   getDeviceTypeFromAddress ''/controller1/pose'' = CONTROLLER1"
  using C3_routing_by_prefix [of "''/controller1/pose''"] by (simp add: startsWith_def)

lemma validArg_convert: "\<not> throwsOnToString v \<Longrightarrow> validArg v = Inr (readsFinite v)"
  by (cases "readNumber v") (simp_all add: validArg_def readsFinite_def parseFloat_def)

lemma validArg_throw: "throwsOnToString v \<Longrightarrow> validArg v = Inl TypeError"
  by (simp add: validArg_def parseFloat_def)

lemma filterArgs_convert: "allConvert xs \<Longrightarrow> filterArgs xs = Inr (filter readsFinite xs)"
  by (induction xs) (simp_all add: allConvert_def validArg_convert)

lemma filterArgs_throw: "\<not> allConvert xs \<Longrightarrow> filterArgs xs = Inl TypeError"
proof (induction xs)
  case Nil
  then show ?case by (simp add: allConvert_def)
next
  case (Cons v vs)
  show ?case
  proof (cases "throwsOnToString v")
    case True
    then show ?thesis by (simp add: validArg_throw)
  next
    case False
    then have "\<not> allConvert vs" using Cons.prems by (simp add: allConvert_def)
    then show ?thesis using Cons.IH False by (simp add: validArg_convert)
  qed
qed

lemma filterArgs_kept_convert: "filterArgs xs = Inr ys \<Longrightarrow> allConvert ys"
proof -
  assume a: "filterArgs xs = Inr ys"
  have c: "allConvert xs" using a filterArgs_throw [of xs] by auto
  then have "ys = filter readsFinite xs" using a by (simp add: filterArgs_convert)
  moreover have "allConvert (filter readsFinite xs)"
    using c unfolding allConvert_def by (induction xs) auto
  ultimately show ?thesis by simp
qed

lemma encodeArgs_convert: "allConvert xs \<Longrightarrow> \<exists>floats. encodeArgs xs = Inr floats"
  by (induction xs) (auto simp: allConvert_def encodeArg_def parseFloat_def)

lemma encodeArgs_throw: "\<not> allConvert xs \<Longrightarrow> encodeArgs xs = Inl TypeError"
proof (induction xs)
  case Nil
  then show ?case by (simp add: allConvert_def)
next
  case (Cons v vs)
  show ?case
  proof (cases "throwsOnToString v")
    case True
    then show ?thesis by (simp add: encodeArg_def parseFloat_def)
  next
    case False
    then have "\<not> allConvert vs" using Cons.prems by (simp add: allConvert_def)
    then show ?thesis using Cons.IH False by (simp add: encodeArg_def parseFloat_def)
  qed
qed

lemma bad_invalid: "readsFinite (JString ''bad'') = False"
  by (simp add: readsFinite_def parseFloat_def parse_defs)

lemma abc3_valid: "readsFinite (JString ''3abc'') = True"
  by (simp add: readsFinite_def parseFloat_def parse_defs)

lemma nbsp_valid: "readsFinite (JString ([CHR 0xC2, CHR 0xA0] @ ''5'')) = True"
  by (simp add: readsFinite_def parseFloat_def parseFloatString_def trimStart.simps
        whiteSpaceLength_def isDigit_def startsWith_def digitsValue_def exponentPart_def
        scale10_def toDouble_def)

lemma num_valid: "readsFinite (JNumber (Num r)) = True"
  by (simp add: readsFinite_def parseFloat_def)

lemma finiteNumeric_valid: "spec_finiteNumeric v \<Longrightarrow> readsFinite v"
  by (cases v) (simp_all add: spec_finiteNumeric_def readsFinite_def parseFloat_def)

lemma filter_finiteNumeric_readsFinite:
  "filter spec_finiteNumeric (filter readsFinite xs) = filter spec_finiteNumeric xs"
  by (induction xs) (auto simp: finiteNumeric_valid)

text \<open>
  An argument whose conversion to a string throws makes \<open>args.filter\<close> throw: the
  function is left before \<open>sendOSC\<close> and the state stays as it was.
\<close>

lemma handleOSCMessage_unconvertible:
  "a \<noteq> [] \<Longrightarrow> \<not> allConvert xs \<Longrightarrow>
   handleOSCMessage t \<lparr>address = JString a, args = JArray xs\<rparr> s = (Some (Inl TypeError), s)"
  by (simp add: handleOSCMessage_def filterArgs_throw)

lemma handleOSCMessage_toStringObject:
  "handleOSCMessage t
     \<lparr>address = JString ''/hmd/pose'',
      args = JArray [JNumber (Num 1), toStringObject, JNumber (Num 3)]\<rparr> s
   = (Some (Inl TypeError), s)"
  by (rule handleOSCMessage_unconvertible) (simp_all add: allConvert_def toStringObject_def)

text \<open>
  C4, amended. A message with a non-empty string address and an array of arguments that
  all convert to a string (none is an object with an own property \<^verbatim>\<open>toString\<close>, or
  an array that holds one) is never rejected for its arguments: the router keeps, in
  order, exactly the elements that \<open>parseFloat\<close> reads as a finite number and hands
  them to \<open>sendOSC\<close>. Every finite Number of the message is among them, in its place.
  For the HMD message with arguments \<^verbatim>\<open>[1,2,"bad",4,5,6]\<close> the five numbers are kept.
\<close>

theorem C4_filter_keeps_parsable:
  "(a \<noteq> [] \<and> allConvert xs \<longrightarrow>
      fst (handleOSCMessage t \<lparr>address = JString a, args = JArray xs\<rparr> s)
        = Some (Inr (filter readsFinite xs, fst (sendOSC t a (filter readsFinite xs) s)))) \<and>
   filter spec_finiteNumeric (filter readsFinite xs) = filter spec_finiteNumeric xs \<and>
   fst (handleOSCMessage None
          \<lparr>address = JString ''/hmd/pose'',
           args = JArray [JNumber (Num 1), JNumber (Num 2), JString ''bad'',
                          JNumber (Num 4), JNumber (Num 5), JNumber (Num 6)]\<rparr>
          readyServer)
     = Some (Inr ([JNumber (Num 1), JNumber (Num 2), JNumber (Num 4), JNumber (Num 5),
                   JNumber (Num 6)], True))"
proof -
  have 1: "a \<noteq> [] \<and> allConvert xs \<longrightarrow>
      fst (handleOSCMessage t \<lparr>address = JString a, args = JArray xs\<rparr> s)
        = Some (Inr (filter readsFinite xs, fst (sendOSC t a (filter readsFinite xs) s)))"
    by (simp add: handleOSCMessage_def Let_def filterArgs_convert)
  have c: "allConvert [JNumber (Num 1), JNumber (Num 2), JString ''bad'',
                       JNumber (Num 4), JNumber (Num 5), JNumber (Num 6)]"
    by (simp add: allConvert_def)
  have 3: "fst (handleOSCMessage None
          \<lparr>address = JString ''/hmd/pose'',
           args = JArray [JNumber (Num 1), JNumber (Num 2), JString ''bad'',
                          JNumber (Num 4), JNumber (Num 5), JNumber (Num 6)]\<rparr>
          readyServer)
     = Some (Inr ([JNumber (Num 1), JNumber (Num 2), JNumber (Num 4), JNumber (Num 5),
                   JNumber (Num 6)], True))"
  proof -
    have f: "filterArgs [JNumber (Num 1), JNumber (Num 2), JString ''bad'',
                         JNumber (Num 4), JNumber (Num 5), JNumber (Num 6)]
               = Inr [JNumber (Num 1), JNumber (Num 2), JNumber (Num 4), JNumber (Num 5),
                      JNumber (Num 6)]"
      unfolding filterArgs_convert [OF c] by (simp add: num_valid bad_invalid)
    show ?thesis
      by (simp add: handleOSCMessage_def f sendOSC_def device_hmd readyServer_def encodeArg_number
            del: filterArgs.simps)
  qed
  show ?thesis using 1 3 filter_finiteNumeric_readsFinite [of xs] by simp
qed

theorem C4_filter_keeps_parsable_witness:
  "''/controller1/pose'' \<noteq> [] \<and> allConvert [JNull, JString ''3abc''] \<and>
   fst (handleOSCMessage None \<lparr>address = JString ''/controller1/pose'', args = JArray [JNull, JString ''3abc'']\<rparr> readyServer)
     = Some (Inr ([JString ''3abc''], True))"
proof -
  have d: "getDeviceTypeFromAddress ''/controller1/pose'' = CONTROLLER1"
    by (simp add: getDeviceTypeFromAddress_def startsWith_def)
  have c: "allConvert [JNull, JString ''3abc'']" by (simp add: allConvert_def)
  have n: "readsFinite JNull = False" by (simp add: readsFinite_def parseFloat_def)
  have e: "encodeArgs [JString ''3abc''] = Inr [Num 3]"
    by (simp add: encodeArg_def parseFloat_def parse_defs)
  show ?thesis
    using c C4_filter_keeps_parsable [of "''/controller1/pose''" "[JNull, JString ''3abc'']" None readyServer]
    by (simp add: n abc3_valid sendOSC_def d readyServer_def e del: encodeArgs.simps)
qed

text \<open>
  The elements kept are not always numbers: the string \<^verbatim>\<open>3abc\<close> starts with a
  literal, passes the filter and is forwarded, while the finite numbers of that message
  are the single \<open>1\<close>.
\<close>

theorem C4_counterexample:
  "fst (handleOSCMessage None
          \<lparr>address = JString ''/hmd/pose'', args = JArray [JNumber (Num 1), JString ''3abc'']\<rparr>
          readyServer)
     = Some (Inr ([JNumber (Num 1), JString ''3abc''], True)) \<and>
   filter spec_finiteNumeric [JNumber (Num 1), JString ''3abc''] = [JNumber (Num 1)]"
proof -
  have c: "allConvert [JNumber (Num 1), JString ''3abc'']" by (simp add: allConvert_def)
  have e: "encodeArgs [JNumber (Num 1), JString ''3abc''] = Inr [Num 1, Num 3]"
    by (simp add: encodeArg_def parseFloat_def parse_defs)
  have f: "filterArgs [JNumber (Num 1), JString ''3abc''] = Inr [JNumber (Num 1), JString ''3abc'']"
    unfolding filterArgs_convert [OF c] by (simp add: num_valid abc3_valid)
  show ?thesis
    by (simp add: handleOSCMessage_def f sendOSC_def device_hmd readyServer_def
          spec_finiteNumeric_def e del: filterArgs.simps encodeArgs.simps)
qed

text \<open>
  C5, amended. \<open>sendOSC\<close> compares the number of arguments with nothing: when the channel
  of the addressed device has a port and is connected and the send does not throw, it
  returns true and sends one datagram with as many float arguments as it was given,
  whatever the address. This holds for all arguments that convert to a string, which
  those that the router hands over always do; for others the conversion throws inside
  the \<open>try\<close>, and \<open>sendOSC\<close> returns false and sends nothing.
\<close>

theorem C5_any_arity_forwarded:
  "oscUDPPorts s (getDeviceTypeFromAddress a) = Some udp \<and> oscConnected s (getDeviceTypeFromAddress a) \<longrightarrow>
     (case encodeArgs xs of
        Inr floats \<Rightarrow>
          fst (sendOSC None a xs s) = True \<and>
          datagrams (snd (sendOSC None a xs s)) =
            datagrams s @ [(remotePort udp, \<lparr>oscAddress = a, oscArgs = floats\<rparr>)] \<and>
          length (oscArgs (snd (last (datagrams (snd (sendOSC None a xs s)))))) = length xs
      | Inl e \<Rightarrow>
          fst (sendOSC None a xs s) = False \<and>
          datagrams (snd (sendOSC None a xs s)) = datagrams s) \<and>
     (filterArgs ys = Inr xs \<longrightarrow>
        fst (sendOSC None a xs s) = True \<and>
        length (oscArgs (snd (last (datagrams (snd (sendOSC None a xs s)))))) = length xs)"
proof (intro impI)
  assume h: "oscUDPPorts s (getDeviceTypeFromAddress a) = Some udp \<and> oscConnected s (getDeviceTypeFromAddress a)"
  have 1: "(case encodeArgs xs of
        Inr floats \<Rightarrow>
          fst (sendOSC None a xs s) = True \<and>
          datagrams (snd (sendOSC None a xs s)) =
            datagrams s @ [(remotePort udp, \<lparr>oscAddress = a, oscArgs = floats\<rparr>)] \<and>
          length (oscArgs (snd (last (datagrams (snd (sendOSC None a xs s)))))) = length xs
      | Inl e \<Rightarrow>
          fst (sendOSC None a xs s) = False \<and>
          datagrams (snd (sendOSC None a xs s)) = datagrams s)"
  proof (cases "encodeArgs xs")
    case (Inl e)
    then show ?thesis using h by (simp add: sendOSC_def sendFailed_def Let_def reconnectOSC_one)
  next
    case (Inr floats)
    then show ?thesis using h sendOSC_ready [of s a udp xs floats] length_encodeArgs [OF Inr] by simp
  qed
  have 2: "filterArgs ys = Inr xs \<longrightarrow>
        fst (sendOSC None a xs s) = True \<and>
        length (oscArgs (snd (last (datagrams (snd (sendOSC None a xs s)))))) = length xs"
  proof
    assume "filterArgs ys = Inr xs"
    then obtain floats where e: "encodeArgs xs = Inr floats"
      using filterArgs_kept_convert encodeArgs_convert by blast
    from 1 [unfolded e sum.case]
    show "fst (sendOSC None a xs s) = True \<and>
        length (oscArgs (snd (last (datagrams (snd (sendOSC None a xs s)))))) = length xs"
      by blast
  qed
  show "(case encodeArgs xs of
        Inr floats \<Rightarrow>
          fst (sendOSC None a xs s) = True \<and>
          datagrams (snd (sendOSC None a xs s)) =
            datagrams s @ [(remotePort udp, \<lparr>oscAddress = a, oscArgs = floats\<rparr>)] \<and>
          length (oscArgs (snd (last (datagrams (snd (sendOSC None a xs s)))))) = length xs
      | Inl e \<Rightarrow>
          fst (sendOSC None a xs s) = False \<and>
          datagrams (snd (sendOSC None a xs s)) = datagrams s) \<and>
     (filterArgs ys = Inr xs \<longrightarrow>
        fst (sendOSC None a xs s) = True \<and>
        length (oscArgs (snd (last (datagrams (snd (sendOSC None a xs s)))))) = length xs)"
    using 1 2 by blast
qed

theorem C5_any_arity_forwarded_witness:
  "oscUDPPorts readyServer (getDeviceTypeFromAddress ''/controller0/pose'') = Some \<lparr>remotePort = 7401\<rparr> \<and>
   oscConnected readyServer (getDeviceTypeFromAddress ''/controller0/pose'') \<and>
   filterArgs [JNumber (Num 1), JNull, JNumber (Num 2)] = Inr [JNumber (Num 1), JNumber (Num 2)] \<and>
   fst (sendOSC None ''/controller0/pose'' [JNumber (Num 1), JNumber (Num 2)] readyServer) = True \<and>
   length (oscArgs (snd (last (datagrams (snd (sendOSC None ''/controller0/pose'' [JNumber (Num 1), JNumber (Num 2)] readyServer)))))) = 2"
proof -
  have h: "oscUDPPorts readyServer (getDeviceTypeFromAddress ''/controller0/pose'') = Some \<lparr>remotePort = 7401\<rparr> \<and>
           oscConnected readyServer (getDeviceTypeFromAddress ''/controller0/pose'')"
    by (simp add: device_controller0 readyServer_def)
  have f: "filterArgs [JNumber (Num 1), JNull, JNumber (Num 2)] = Inr [JNumber (Num 1), JNumber (Num 2)]"
    by (simp add: validArg_def parseFloat_def)
  show ?thesis
    using h f C5_any_arity_forwarded [of readyServer "''/controller0/pose''" "\<lparr>remotePort = 7401\<rparr>"
             "[JNumber (Num 1), JNumber (Num 2)]" "[JNumber (Num 1), JNull, JNumber (Num 2)]"]
    by simp
qed

text \<open>
  An argument whose conversion throws takes \<open>sendOSC\<close> to its \<open>catch\<close> block: it
  returns false and sends nothing.
\<close>

lemma sendOSC_unconvertible:
  "fst (sendOSC None ''/hmd/pose'' [toStringObject] readyServer) = False \<and>
   datagrams (snd (sendOSC None ''/hmd/pose'' [toStringObject] readyServer)) = []"
  by (simp add: sendOSC_def sendFailed_def device_hmd readyServer_def encodeArg_def parseFloat_def
        toStringObject_def)

text \<open>An HMD message with five arguments is sent as it is, and \<open>sendOSC\<close> returns true.\<close>

theorem C5_counterexample:
  "fst (sendOSC None ''/hmd/pose''
          [JNumber (Num 1), JNumber (Num 2), JNumber (Num 4), JNumber (Num 5), JNumber (Num 6)]
          readyServer) = True \<and>
   map (\<lambda>d. length (oscArgs (snd d)))
     (datagrams (snd (sendOSC None ''/hmd/pose''
          [JNumber (Num 1), JNumber (Num 2), JNumber (Num 4), JNumber (Num 5), JNumber (Num 6)]
          readyServer))) = [5]"
  by (simp add: sendOSC_def device_hmd readyServer_def encodeArg_number)

text \<open>
  C10. A message whose address is the empty string is dropped before \<open>sendOSC\<close>, and
  the server state stays as it was; the same happens to a missing address and to an
  address that is not a string.
\<close>

theorem C10_empty_address_dropped:
  "handleOSCMessage t \<lparr>address = JString [], args = xs\<rparr> s = (None, s) \<and>
   handleOSCMessage t \<lparr>address = JUndefined, args = xs\<rparr> s = (None, s) \<and>
   handleOSCMessage t \<lparr>address = JNumber n, args = xs\<rparr> s = (None, s)"
  by (simp add: handleOSCMessage_def)

section \<open>The device channels\<close>

lemma sendFailed_fields:
  "fst (sendFailed m dev s) = False \<and>
   datagrams (snd (sendFailed m dev s)) = datagrams s \<and>
   wsOutbox (snd (sendFailed m dev s)) = wsOutbox s \<and>
   oscErrorCount (snd (sendFailed m dev s)) = oscErrorCount s + 1 \<and>
   oscConnected (snd (sendFailed m dev s)) =
     (if 10 < oscErrorCount s + 1 then (oscConnected s)(dev := False) else oscConnected s) \<and>
   oscUDPPorts (snd (sendFailed m dev s)) =
     (if 10 < oscErrorCount s + 1 then (oscUDPPorts s)(dev := None) else oscUDPPorts s) \<and>
   timers (snd (sendFailed m dev s)) =
     (if 10 < oscErrorCount s + 1 then timers s @ [(1000, InitOSCConnection)] else timers s)"
  by (simp add: sendFailed_def Let_def reconnectOSC_one)

lemma sendOSC_throws:
  assumes "oscUDPPorts s (getDeviceTypeFromAddress a) = Some udp"
      and "oscConnected s (getDeviceTypeFromAddress a)"
  shows "\<exists>m'. sendOSC (Some m) a xs s = sendFailed m' (getDeviceTypeFromAddress a) s"
  using assms by (cases "encodeArgs xs") (auto simp: sendOSC_def Let_def)

lemma sendOSC_wsOutbox: "wsOutbox (snd (sendOSC t a xs s)) = wsOutbox s"
  by (simp add: sendOSC_def Let_def sendFailed_fields split: option.splits sum.splits)

lemma handleOSCMessage_wsOutbox: "wsOutbox (snd (handleOSCMessage t msg s)) = wsOutbox s"
  by (simp add: handleOSCMessage_def Let_def sendOSC_wsOutbox split: jsval.splits sum.splits)

lemma reportedStatus_iff:
  "reportedStatus s = (if oscConnected s HMD \<and> oscConnected s CONTROLLER0 \<and> oscConnected s CONTROLLER1
                       then ''ready'' else ''connecting'')"
  by (simp add: reportedStatus_def onConnection_def allDevices_def Let_def)

lemma reportedStatus_down: "\<not> oscConnected s d \<Longrightarrow> reportedStatus s = ''connecting''"
  by (cases d) (auto simp: reportedStatus_iff)

lemma reportedStatus_cong:
  "oscConnected s' = oscConnected s \<Longrightarrow> reportedStatus s' = reportedStatus s"
  by (simp add: reportedStatus_iff)

text \<open>
  C8, amended. An \<open>error\<close> event of a device's port marks that device not connected and
  sets one timer of 5000 ms that reconnects it. A send that throws returns false, sends
  nothing and counts one more error; the channel is torn down (not connected, no port, one
  timer of 1000 ms that initialises the connections again) only when the error count then
  exceeds 10, and otherwise stays as it was with no timer set. Neither writes to a
  WebSocket client, and no handling of a message does. The one message the server writes
  is the confirmation to a client that connects: its \<open>oscStatus\<close> is \<^verbatim>\<open>ready\<close> when
  all three channels are connected and \<^verbatim>\<open>connecting\<close> otherwise, so a client that
  connects while a fault has a channel marked not connected is told \<^verbatim>\<open>connecting\<close>.
  When the channel has no port or is not connected, \<open>sendOSC\<close> returns false and leaves
  the state as it was.
\<close>

theorem C8_send_failure_reporting:
  "oscConnected (onError d m s) d = False \<and>
   timers (onError d m s) = timers s @ [(5000, ReconnectOSC d)] \<and>
   wsOutbox (onError d m s) = wsOutbox s \<and>
   wsOutbox (snd (handleOSCMessage t msg s)) = wsOutbox s \<and>
   reportedStatus (onError d m s) = ''connecting'' \<and>
   (oscConnected s HMD \<and> oscConnected s CONTROLLER0 \<and> oscConnected s CONTROLLER1 \<longrightarrow>
      reportedStatus s = ''ready'') \<and>
   (oscUDPPorts s (getDeviceTypeFromAddress a) = Some udp \<and> oscConnected s (getDeviceTypeFromAddress a) \<longrightarrow>
      fst (sendOSC (Some m) a xs s) = False \<and>
      datagrams (snd (sendOSC (Some m) a xs s)) = datagrams s \<and>
      wsOutbox (snd (sendOSC (Some m) a xs s)) = wsOutbox s \<and>
      oscErrorCount (snd (sendOSC (Some m) a xs s)) = oscErrorCount s + 1 \<and>
      (if 10 < oscErrorCount s + 1
       then oscConnected (snd (sendOSC (Some m) a xs s)) (getDeviceTypeFromAddress a) = False \<and>
            oscUDPPorts (snd (sendOSC (Some m) a xs s)) (getDeviceTypeFromAddress a) = None \<and>
            timers (snd (sendOSC (Some m) a xs s)) = timers s @ [(1000, InitOSCConnection)] \<and>
            reportedStatus (snd (sendOSC (Some m) a xs s)) = ''connecting''
       else oscConnected (snd (sendOSC (Some m) a xs s)) (getDeviceTypeFromAddress a) = True \<and>
            oscUDPPorts (snd (sendOSC (Some m) a xs s)) (getDeviceTypeFromAddress a) = Some udp \<and>
            timers (snd (sendOSC (Some m) a xs s)) = timers s \<and>
            reportedStatus (snd (sendOSC (Some m) a xs s)) = reportedStatus s)) \<and>
   (oscUDPPorts s (getDeviceTypeFromAddress a) = None \<or> oscConnected s (getDeviceTypeFromAddress a) = False \<longrightarrow>
      sendOSC t a xs s = (False, s))"
proof -
  have 1: "oscConnected (onError d m s) d = False \<and>
           timers (onError d m s) = timers s @ [(5000, ReconnectOSC d)] \<and>
           wsOutbox (onError d m s) = wsOutbox s"
    by (simp add: onError_def)
  then have 4: "reportedStatus (onError d m s) = ''connecting''"
    using reportedStatus_down [of "onError d m s" d] by simp
  have r: "oscConnected s HMD \<and> oscConnected s CONTROLLER0 \<and> oscConnected s CONTROLLER1 \<longrightarrow>
      reportedStatus s = ''ready''"
    by (simp add: reportedStatus_iff)
  have 2: "oscUDPPorts s (getDeviceTypeFromAddress a) = None \<or> oscConnected s (getDeviceTypeFromAddress a) = False \<longrightarrow>
      sendOSC t a xs s = (False, s)"
    by (auto simp: sendOSC_def Let_def split: option.splits)
  have 3: "oscUDPPorts s (getDeviceTypeFromAddress a) = Some udp \<and> oscConnected s (getDeviceTypeFromAddress a) \<longrightarrow>
      fst (sendOSC (Some m) a xs s) = False \<and>
      datagrams (snd (sendOSC (Some m) a xs s)) = datagrams s \<and>
      wsOutbox (snd (sendOSC (Some m) a xs s)) = wsOutbox s \<and>
      oscErrorCount (snd (sendOSC (Some m) a xs s)) = oscErrorCount s + 1 \<and>
      (if 10 < oscErrorCount s + 1
       then oscConnected (snd (sendOSC (Some m) a xs s)) (getDeviceTypeFromAddress a) = False \<and>
            oscUDPPorts (snd (sendOSC (Some m) a xs s)) (getDeviceTypeFromAddress a) = None \<and>
            timers (snd (sendOSC (Some m) a xs s)) = timers s @ [(1000, InitOSCConnection)] \<and>
            reportedStatus (snd (sendOSC (Some m) a xs s)) = ''connecting''
       else oscConnected (snd (sendOSC (Some m) a xs s)) (getDeviceTypeFromAddress a) = True \<and>
            oscUDPPorts (snd (sendOSC (Some m) a xs s)) (getDeviceTypeFromAddress a) = Some udp \<and>
            timers (snd (sendOSC (Some m) a xs s)) = timers s \<and>
            reportedStatus (snd (sendOSC (Some m) a xs s)) = reportedStatus s)"
  proof
    assume h: "oscUDPPorts s (getDeviceTypeFromAddress a) = Some udp \<and> oscConnected s (getDeviceTypeFromAddress a)"
    then obtain m' where e: "sendOSC (Some m) a xs s = sendFailed m' (getDeviceTypeFromAddress a) s"
      using sendOSC_throws [of s a udp m xs] by blast
    let ?s' = "snd (sendFailed m' (getDeviceTypeFromAddress a) s)"
    show "fst (sendOSC (Some m) a xs s) = False \<and>
      datagrams (snd (sendOSC (Some m) a xs s)) = datagrams s \<and>
      wsOutbox (snd (sendOSC (Some m) a xs s)) = wsOutbox s \<and>
      oscErrorCount (snd (sendOSC (Some m) a xs s)) = oscErrorCount s + 1 \<and>
      (if 10 < oscErrorCount s + 1
       then oscConnected (snd (sendOSC (Some m) a xs s)) (getDeviceTypeFromAddress a) = False \<and>
            oscUDPPorts (snd (sendOSC (Some m) a xs s)) (getDeviceTypeFromAddress a) = None \<and>
            timers (snd (sendOSC (Some m) a xs s)) = timers s @ [(1000, InitOSCConnection)] \<and>
            reportedStatus (snd (sendOSC (Some m) a xs s)) = ''connecting''
       else oscConnected (snd (sendOSC (Some m) a xs s)) (getDeviceTypeFromAddress a) = True \<and>
            oscUDPPorts (snd (sendOSC (Some m) a xs s)) (getDeviceTypeFromAddress a) = Some udp \<and>
            timers (snd (sendOSC (Some m) a xs s)) = timers s \<and>
            reportedStatus (snd (sendOSC (Some m) a xs s)) = reportedStatus s)"
    proof (cases "10 < oscErrorCount s + 1")
      case True
      then have "\<not> oscConnected ?s' (getDeviceTypeFromAddress a)" by (simp add: sendFailed_fields)
      then have "reportedStatus ?s' = ''connecting''" by (rule reportedStatus_down)
      then show ?thesis unfolding e using True h by (simp add: sendFailed_fields)
    next
      case False
      then have "oscConnected ?s' = oscConnected s" by (simp add: sendFailed_fields)
      then have "reportedStatus ?s' = reportedStatus s" by (rule reportedStatus_cong)
      then show ?thesis unfolding e using False h by (simp add: sendFailed_fields)
    qed
  qed
  show ?thesis using 1 4 r 2 3 handleOSCMessage_wsOutbox [of t msg s] by blast
qed

theorem C8_send_failure_reporting_witness:
  "oscUDPPorts (readyServer\<lparr>oscErrorCount := 10\<rparr>) (getDeviceTypeFromAddress ''/controller1/pose'')
     = Some \<lparr>remotePort = 7402\<rparr> \<and>
   oscConnected (readyServer\<lparr>oscErrorCount := 10\<rparr>) (getDeviceTypeFromAddress ''/controller1/pose'') \<and>
   oscConnected (readyServer\<lparr>oscErrorCount := 10\<rparr>) HMD \<and>
   oscConnected (readyServer\<lparr>oscErrorCount := 10\<rparr>) CONTROLLER0 \<and>
   oscConnected (readyServer\<lparr>oscErrorCount := 10\<rparr>) CONTROLLER1 \<and>
   reportedStatus (readyServer\<lparr>oscErrorCount := 10\<rparr>) = ''ready'' \<and>
   oscConnected (snd (sendOSC (Some ''EHOSTUNREACH'') ''/controller1/pose'' sevenArgs
                        (readyServer\<lparr>oscErrorCount := 10\<rparr>))) CONTROLLER1 = False \<and>
   timers (snd (sendOSC (Some ''EHOSTUNREACH'') ''/controller1/pose'' sevenArgs
                  (readyServer\<lparr>oscErrorCount := 10\<rparr>))) = [(1000, InitOSCConnection)] \<and>
   reportedStatus (snd (sendOSC (Some ''EHOSTUNREACH'') ''/controller1/pose'' sevenArgs
                  (readyServer\<lparr>oscErrorCount := 10\<rparr>))) = ''connecting'' \<and>
   (oscUDPPorts (onClose HMD readyServer) (getDeviceTypeFromAddress ''/hmd/pose'') = None \<or>
    oscConnected (onClose HMD readyServer) (getDeviceTypeFromAddress ''/hmd/pose'') = False) \<and>
   sendOSC None ''/hmd/pose'' sixArgs (onClose HMD readyServer) = (False, onClose HMD readyServer)"
proof -
  have d1: "getDeviceTypeFromAddress ''/controller1/pose'' = CONTROLLER1"
    by (simp add: getDeviceTypeFromAddress_def startsWith_def)
  have d2: "getDeviceTypeFromAddress ''/hmd/pose'' = HMD"
    by (simp add: getDeviceTypeFromAddress_def startsWith_def)
  have h1: "oscUDPPorts (readyServer\<lparr>oscErrorCount := 10\<rparr>) (getDeviceTypeFromAddress ''/controller1/pose'')
              = Some \<lparr>remotePort = 7402\<rparr> \<and>
            oscConnected (readyServer\<lparr>oscErrorCount := 10\<rparr>) (getDeviceTypeFromAddress ''/controller1/pose'')"
    by (simp add: d1 readyServer_def)
  have h2: "oscUDPPorts (onClose HMD readyServer) (getDeviceTypeFromAddress ''/hmd/pose'') = None \<or>
            oscConnected (onClose HMD readyServer) (getDeviceTypeFromAddress ''/hmd/pose'') = False"
    by (simp add: d2 onClose_def)
  have h3: "oscConnected (readyServer\<lparr>oscErrorCount := 10\<rparr>) HMD \<and>
            oscConnected (readyServer\<lparr>oscErrorCount := 10\<rparr>) CONTROLLER0 \<and>
            oscConnected (readyServer\<lparr>oscErrorCount := 10\<rparr>) CONTROLLER1"
    by (simp add: readyServer_def)
  show ?thesis
    using h1 h2 h3
      C8_send_failure_reporting [of CONTROLLER1 "''EHOSTUNREACH''" "readyServer\<lparr>oscErrorCount := 10\<rparr>"
         None "\<lparr>address = JNull, args = JNull\<rparr>" "''/controller1/pose''" "\<lparr>remotePort = 7402\<rparr>" sevenArgs]
      C8_send_failure_reporting [of HMD "''EHOSTUNREACH''" "onClose HMD readyServer"
         None "\<lparr>address = JNull, args = JNull\<rparr>" "''/hmd/pose''" "\<lparr>remotePort = 7400\<rparr>" sixArgs]
    by (simp add: d1 d2 readyServer_def onClose_def)
qed

text \<open>
  The first send that throws on a fresh server returns false, and the channel stays
  connected with no reconnect timer set.
\<close>

theorem C8_counterexample:
  "fst (sendOSC (Some ''EHOSTUNREACH'') ''/hmd/pose'' sixArgs readyServer) = False \<and>
   oscConnected (snd (sendOSC (Some ''EHOSTUNREACH'') ''/hmd/pose'' sixArgs readyServer)) HMD = True \<and>
   timers (snd (sendOSC (Some ''EHOSTUNREACH'') ''/hmd/pose'' sixArgs readyServer)) = []"
  by (simp add: sendOSC_def sendFailed_def device_hmd readyServer_def encodeArgs_sixArgs)

text \<open>
  What a failure on one device leaves alone: the port and the connected flag of every
  other device, and the result of a later send to another device that does not throw.
\<close>

lemma onError_other: "d \<noteq> dev \<Longrightarrow>
   oscConnected (onError dev m s) d = oscConnected s d \<and> oscUDPPorts (onError dev m s) d = oscUDPPorts s d"
  by (simp add: onError_def)

lemma onClose_other: "d \<noteq> dev \<Longrightarrow>
   oscConnected (onClose dev s) d = oscConnected s d \<and> oscUDPPorts (onClose dev s) d = oscUDPPorts s d"
  by (simp add: onClose_def)

lemma reconnectOSC_other: "d \<noteq> dev \<Longrightarrow>
   oscConnected (reconnectOSC (Some dev) s) d = oscConnected s d \<and>
   oscUDPPorts (reconnectOSC (Some dev) s) d = oscUDPPorts s d"
  by (simp add: reconnectOSC_one)

lemma sendOSC_other: "d \<noteq> getDeviceTypeFromAddress a \<Longrightarrow>
   oscConnected (snd (sendOSC t a xs s)) d = oscConnected s d \<and>
   oscUDPPorts (snd (sendOSC t a xs s)) d = oscUDPPorts s d"
  by (simp add: sendOSC_def Let_def sendFailed_fields split: option.splits sum.splits)

lemma sendOSC_success_other:
  "getDeviceTypeFromAddress b \<noteq> getDeviceTypeFromAddress a \<Longrightarrow>
   fst (sendOSC None b ys (snd (sendOSC t a xs s))) = fst (sendOSC None b ys s)"
  using sendOSC_other [of "getDeviceTypeFromAddress b" a t xs s]
  by (simp add: sendOSC_def [of None b] Let_def sendFailed_fields split: option.splits sum.splits)

text \<open>
  C9. The error count is one number for all devices. With nine errors counted, a send
  that throws on the HMD channel leaves HMD connected; after a send that throws on the
  channel of CONTROLLER0, the same send tears the HMD channel down.
\<close>

theorem C9_shared_error_count:
  "oscConnected (snd (sendOSC (Some ''EHOSTUNREACH'') ''/hmd/pose'' sixArgs
                        (readyServer\<lparr>oscErrorCount := 9\<rparr>))) HMD = True \<and>
   oscConnected (snd (sendOSC (Some ''EHOSTUNREACH'') ''/hmd/pose'' sixArgs
                        (snd (sendOSC (Some ''EHOSTUNREACH'') ''/controller0/pose'' sevenArgs
                                (readyServer\<lparr>oscErrorCount := 9\<rparr>))))) HMD = False \<and>
   oscUDPPorts (snd (sendOSC (Some ''EHOSTUNREACH'') ''/hmd/pose'' sixArgs
                        (snd (sendOSC (Some ''EHOSTUNREACH'') ''/controller0/pose'' sevenArgs
                                (readyServer\<lparr>oscErrorCount := 9\<rparr>))))) HMD = None"
proof -
  have d0: "getDeviceTypeFromAddress ''/controller0/pose'' = CONTROLLER0"
    by (simp add: getDeviceTypeFromAddress_def startsWith_def)
  have d2: "getDeviceTypeFromAddress ''/hmd/pose'' = HMD"
    by (simp add: getDeviceTypeFromAddress_def startsWith_def)
  show ?thesis
    by (simp add: sendOSC_def sendFailed_def d0 d2 readyServer_def reconnectOSC_one
          encodeArgs_sixArgs encodeArgs_sevenArgs)
qed

section \<open>Angle normalisation\<close>

lemma down_le: "normalizeAngle_down a \<le> 180"
  by (induction a rule: normalizeAngle_down.induct) (simp add: normalizeAngle_down.simps)

lemma down_id: "a \<le> 180 \<Longrightarrow> normalizeAngle_down a = a"
  by (simp add: normalizeAngle_down.simps)

lemma down_gt: "180 < a \<Longrightarrow> - 180 < normalizeAngle_down a"
proof (induction a rule: normalizeAngle_down.induct)
  case (1 angle)
  show ?case
  proof (cases "180 < angle - 360")
    case True
    then show ?thesis using 1 by (subst normalizeAngle_down.simps) simp
  next
    case False
    then have "normalizeAngle_down (angle - 360) = angle - 360" by (simp add: down_id)
    then show ?thesis using 1 by (subst normalizeAngle_down.simps) simp
  qed
qed

lemma up_ge: "- 180 \<le> normalizeAngle_up a"
  by (induction a rule: normalizeAngle_up.induct) (simp add: normalizeAngle_up.simps)

lemma up_id: "- 180 \<le> a \<Longrightarrow> normalizeAngle_up a = a"
  by (simp add: normalizeAngle_up.simps)

lemma up_lt: "a < - 180 \<Longrightarrow> normalizeAngle_up a < 180"
proof (induction a rule: normalizeAngle_up.induct)
  case (1 angle)
  show ?case
  proof (cases "angle + 360 < - 180")
    case True
    then show ?thesis using 1 by (subst normalizeAngle_up.simps) simp
  next
    case False
    then have "normalizeAngle_up (angle + 360) = angle + 360" by (simp add: up_id)
    then show ?thesis using 1 by (subst normalizeAngle_up.simps) simp
  qed
qed

lemma normalizeAngle_range: "- 180 \<le> normalizeAngle a \<and> normalizeAngle a \<le> 180"
proof (cases "normalizeAngle_down a < - 180")
  case True
  then show ?thesis using up_ge [of "normalizeAngle_down a"] up_lt [of "normalizeAngle_down a"]
    by (simp add: normalizeAngle_def)
next
  case False
  then show ?thesis using down_le [of a] by (simp add: normalizeAngle_def up_id)
qed

lemma normalizeAngle_above: "- 180 < a \<Longrightarrow> - 180 < normalizeAngle a"
proof (cases "180 < a")
  case True
  then show ?thesis using down_gt [of a] by (simp add: normalizeAngle_def up_id)
next
  case False
  assume "- 180 < a"
  then show ?thesis using False by (simp add: normalizeAngle_def down_id up_id)
qed

lemma normalizeAngle_270: "normalizeAngle 270 = - 90"
  by (simp add: normalizeAngle_def normalizeAngle_down.simps normalizeAngle_up.simps)

lemma sendOSCData_args:
  "m \<in> set (sendOSCData q opn a p quat b) \<Longrightarrow>
     6 \<le> length (wireArgs m) \<and>
     wireArgs m ! 3 = normalizeAngle (yaw (quaternionToEulerDegrees q quat)) \<and>
     wireArgs m ! 4 = normalizeAngle (pitch (quaternionToEulerDegrees q quat)) \<and>
     wireArgs m ! 5 = normalizeAngle (roll (quaternionToEulerDegrees q quat))"
  by (auto simp: sendOSCData_def Let_def split: if_splits)

text \<open>
  C2, amended. After normalisation an angle lies in the closed range from \<open>-180\<close> to
  \<open>180\<close>, and above \<open>-180\<close> whenever the angle given was; \<open>270\<close> becomes \<open>-90\<close>. So the
  yaw, pitch and roll of every payload that \<open>sendOSCData\<close> sends lie in the closed range,
  whatever the conversion from quaternions.
\<close>

theorem C2_angles_closed_range:
  "- 180 \<le> normalizeAngle a \<and> normalizeAngle a \<le> 180 \<and>
   (- 180 < a \<longrightarrow> - 180 < normalizeAngle a) \<and>
   normalizeAngle 270 = - 90 \<and>
   (\<forall>m \<in> set (sendOSCData q opn addr p quat b).
      \<forall>k \<in> {3, 4, 5}. - 180 \<le> wireArgs m ! k \<and> wireArgs m ! k \<le> 180)"
  using normalizeAngle_range normalizeAngle_above [of a] normalizeAngle_270 sendOSCData_args [of _ q opn addr p quat b]
  by auto

lemma standing_message:
  "sendOSCData flatEuler True ''/hmd/pose'' (posePosition standingPose) (poseOrientation standingPose) False
     = [\<lparr>wireAddress = ''/hmd/pose'', wireArgs = [0, 8 / 5, 0, 0, 0, 0]\<rparr>]"
  by (simp add: sendOSCData_def quaternionToEulerDegrees_def flatEuler_def zeroEuler_def standingPose_def
        startsWith_def normalizeAngle_def normalizeAngle_down.simps normalizeAngle_up.simps Let_def)

theorem C2_angles_closed_range_witness:
  "- 180 < (540::real) \<and> - 180 < normalizeAngle 540 \<and> normalizeAngle 540 \<le> 180 \<and>
   \<lparr>wireAddress = ''/hmd/pose'', wireArgs = [0, 8 / 5, 0, 0, 0, 0]\<rparr>
     \<in> set (sendOSCData flatEuler True ''/hmd/pose'' (posePosition standingPose) (poseOrientation standingPose) False) \<and>
   (3::nat) \<in> {3, 4, 5} \<and>
   - 180 \<le> wireArgs \<lparr>wireAddress = ''/hmd/pose'', wireArgs = [0, 8 / 5, 0, 0, 0, 0]\<rparr> ! 3"
proof -
  have m: "\<lparr>wireAddress = ''/hmd/pose'', wireArgs = [0, 8 / 5, 0, 0, 0, 0]\<rparr>
     \<in> set (sendOSCData flatEuler True ''/hmd/pose'' (posePosition standingPose) (poseOrientation standingPose) False)"
    by (simp add: standing_message)
  have "- 180 < (540::real)" by simp
  then show ?thesis
    using m C2_angles_closed_range [of 540 flatEuler True "''/hmd/pose''" "posePosition standingPose"
               "poseOrientation standingPose" False]
    by simp
qed

text \<open>The angle \<open>-180\<close> passes both loops unchanged, so it is not above \<open>-180\<close>.\<close>

theorem C2_counterexample:
  "normalizeAngle (- 180) = - 180 \<and> \<not> (- 180 < normalizeAngle (- 180))"
  by (simp add: normalizeAngle_def normalizeAngle_down.simps normalizeAngle_up.simps)

section \<open>The throttle gate\<close>

lemma length_sendOSCData: "length (sendOSCData q opn a p o' b) \<le> 1"
  by (simp add: sendOSCData_def Let_def)

lemma frameController_fields:
  "lastOSCSendTime (snd (frameController q g srcs acc i)) = lastOSCSendTime (snd acc) \<and>
   oscEnabled (snd (frameController q g srcs acc i)) = oscEnabled (snd acc) \<and>
   sockets (snd (frameController q g srcs acc i)) = sockets (snd acc) \<and>
   length (controllerMarkers (snd (frameController q g srcs acc i))) = length (controllerMarkers (snd acc))"
  by (simp add: frameController_def Let_def split: grip.splits)

lemma frameController_out:
  "length (fst (frameController q g srcs acc i)) \<le> length (fst acc) + 1 \<and>
   (\<not> g \<longrightarrow> fst (frameController q g srcs acc i) = fst acc)"
  using length_sendOSCData [of q "socketOpen (snd acc)" "controllerAddress i"]
  by (auto simp: frameController_def Let_def split: grip.splits intro: le_SucI)

lemma foldl_frameController_fields:
  "lastOSCSendTime (snd (foldl (frameController q g srcs) acc is)) = lastOSCSendTime (snd acc) \<and>
   oscEnabled (snd (foldl (frameController q g srcs) acc is)) = oscEnabled (snd acc) \<and>
   sockets (snd (foldl (frameController q g srcs) acc is)) = sockets (snd acc) \<and>
   length (controllerMarkers (snd (foldl (frameController q g srcs) acc is))) = length (controllerMarkers (snd acc))"
  by (induction "is" arbitrary: acc) (simp_all add: frameController_fields)

lemma foldl_frameController_out:
  "length (fst (foldl (frameController q g srcs) acc is)) \<le> length (fst acc) + length is \<and>
   (\<not> g \<longrightarrow> fst (foldl (frameController q g srcs) acc is) = fst acc)"
proof (induction "is" arbitrary: acc)
  case Nil
  show ?case by simp
next
  case (Cons i "is")
  show ?case
    using Cons [of "frameController q g srcs acc i"] frameController_out [of q g srcs acc i]
    by auto
qed

lemma frameHide_fields:
  "lastOSCSendTime (frameHide st i) = lastOSCSendTime st \<and>
   oscEnabled (frameHide st i) = oscEnabled st \<and>
   sockets (frameHide st i) = sockets st \<and>
   length (controllerMarkers (frameHide st i)) = length (controllerMarkers st)"
  by (simp add: frameHide_def)

lemma foldl_frameHide_fields:
  "lastOSCSendTime (foldl frameHide st is) = lastOSCSendTime st \<and>
   oscEnabled (foldl frameHide st is) = oscEnabled st \<and>
   sockets (foldl frameHide st is) = sockets st \<and>
   length (controllerMarkers (foldl frameHide st is)) = length (controllerMarkers st)"
  by (induction "is" arbitrary: st) (simp_all add: frameHide_fields)

lemma frameHmd_fields:
  "lastOSCSendTime (snd (frameHmd q g v st)) = lastOSCSendTime st \<and>
   oscEnabled (snd (frameHmd q g v st)) = oscEnabled st \<and>
   sockets (snd (frameHmd q g v st)) = sockets st \<and>
   length (controllerMarkers (snd (frameHmd q g v st))) = length (controllerMarkers st)"
  by (simp add: frameHmd_def Let_def split: option.splits)

lemma frameHmd_out:
  "length (fst (frameHmd q g v st)) \<le> 1 \<and> (\<not> g \<longrightarrow> fst (frameHmd q g v st) = [])"
  using length_sendOSCData [of q "socketOpen st" "''/hmd/pose''"]
  by (simp add: frameHmd_def Let_def split: option.splits)

lemma renderXRFrame_last:
  "lastOSCSendTime (snd (renderXRFrame q t f st)) =
     (if usable f \<and> gate t st then t else lastOSCSendTime st)"
  by (simp add: renderXRFrame_def Let_def gate_def foldl_frameHide_fields
        foldl_frameController_fields frameHmd_fields)

lemma renderXRFrame_fields:
  "oscEnabled (snd (renderXRFrame q t f st)) = oscEnabled st \<and>
   sockets (snd (renderXRFrame q t f st)) = sockets st \<and>
   length (controllerMarkers (snd (renderXRFrame q t f st))) = length (controllerMarkers st)"
  by (simp add: renderXRFrame_def Let_def foldl_frameHide_fields
        foldl_frameController_fields frameHmd_fields)

lemma renderXRFrame_streaming: "streaming (snd (renderXRFrame q t f st)) = streaming st"
  by (simp add: streaming_def socketOpen_def renderXRFrame_fields)

lemma renderXRFrame_out_gate:
  "fst (renderXRFrame q t f st) \<noteq> [] \<Longrightarrow> usable f \<and> gate t st"
  using foldl_frameController_out [of q "gate t st" "inputSources f" "frameHmd q (gate t st) (viewerPose f) st"
           "[0 ..< min (length (inputSources f)) 2]"]
        frameHmd_out [of q "gate t st" "viewerPose f" st]
  by (auto simp: renderXRFrame_def Let_def gate_def split: if_splits)

lemma renderXRFrame_out_length:
  "length (fst (renderXRFrame q t f st)) \<le> 3"
proof (cases "usable f")
  case False
  then show ?thesis by (simp add: renderXRFrame_def)
next
  case True
  let ?g = "gate t st"
  let ?a1 = "frameHmd q ?g (viewerPose f) st"
  let ?is = "[0 ..< min (length (inputSources f)) 2]"
  have "length (fst (foldl (frameController q ?g (inputSources f)) ?a1 ?is)) \<le> length (fst ?a1) + length ?is"
    using foldl_frameController_out by blast
  moreover have "length (fst ?a1) \<le> 1" using frameHmd_out by blast
  moreover have "length ?is \<le> 2" by simp
  ultimately have "length (fst (foldl (frameController q ?g (inputSources f)) ?a1 ?is)) \<le> 3"
    by linarith
  then show ?thesis using True by (simp add: renderXRFrame_def Let_def gate_def)
qed

lemma spaced_mono: "spaced l cs \<Longrightarrow> l' \<le> l \<Longrightarrow> spaced l' cs"
  by (cases cs) auto

lemma spaced_filter: "spaced l cs \<Longrightarrow> spaced l (filter P cs)"
proof (induction cs arbitrary: l)
  case Nil
  then show ?case by simp
next
  case (Cons c cs)
  then have 1: "l + 32 \<le> c" and 2: "spaced c (filter P cs)" by auto
  show ?case
  proof (cases "P c")
    case True
    then show ?thesis using 1 2 by simp
  next
    case False
    then show ?thesis using spaced_mono [OF 2, of l] 1 by simp
  qed
qed

lemma spaced_last: "spaced l cs \<Longrightarrow> cs \<noteq> [] \<Longrightarrow> l + 32 * int (length cs) \<le> last cs"
proof (induction cs arbitrary: l)
  case Nil
  then show ?case by simp
next
  case (Cons c cs)
  show ?case
  proof (cases cs)
    case Nil
    then show ?thesis using Cons.prems by simp
  next
    case (Cons d ds)
    then have "c + 32 * int (length cs) \<le> last cs" using Cons.IH [of c] Cons.prems by simp
    then show ?thesis using Cons.prems Cons by simp
  qed
qed

lemma spaced_window:
  assumes "spaced l cs" and "\<forall>c \<in> set cs. t0 \<le> c \<and> c < t0 + 1000"
  shows "length cs \<le> 32"
proof (cases cs)
  case Nil
  then show ?thesis by simp
next
  case (Cons c ds)
  show ?thesis
  proof (cases ds)
    case Nil
    then show ?thesis using Cons by simp
  next
    case (Cons d es)
    have sp: "spaced c ds" using assms(1) \<open>cs = c # ds\<close> by simp
    have "c + 32 * int (length ds) \<le> last ds" using spaced_last [OF sp] Cons by simp
    moreover have "last ds \<in> set cs" using Cons \<open>cs = c # ds\<close> by simp
    then have "last ds < t0 + 1000" using assms(2) by blast
    moreover have "t0 \<le> c" using assms(2) \<open>cs = c # ds\<close> by simp
    ultimately have "32 * int (length ds) < 1000" by linarith
    then have "length ds \<le> 31" by linarith
    then show ?thesis using \<open>cs = c # ds\<close> by simp
  qed
qed

lemma clientStep_last_other:
  "(\<forall>t f. ev \<noteq> XRFrame t f) \<Longrightarrow> lastOSCSendTime (clientStep q ev st) = lastOSCSendTime st"
  by (cases ev) (simp_all add: toggleOSC_def socketOpened_def socketClosed_def socketFailed_def
       onopen_def onclose_def onerror_def fireReconnectTimer_def initWebSocket_def)

lemma frameRun_spaced: "spaced (lastOSCSendTime st) (sendTimes (frameRun q st evs))"
proof (induction evs arbitrary: st)
  case Nil
  show ?case by (simp add: sendTimes_def)
next
  case (Cons ev evs)
  show ?case
  proof (cases "\<exists>t f. ev = XRFrame t f")
    case False
    then have "sent q ev st = []" by (cases ev) simp_all
    moreover have "lastOSCSendTime (clientStep q ev st) = lastOSCSendTime st"
      using False clientStep_last_other by blast
    ultimately show ?thesis using Cons [of "clientStep q ev st"] by (simp add: sendTimes_def)
  next
    case True
    then obtain t f where ev: "ev = XRFrame t f" by blast
    let ?r = "renderXRFrame q t f st"
    have IH: "spaced (lastOSCSendTime (snd ?r)) (sendTimes (frameRun q (snd ?r) evs))"
      using Cons [of "snd ?r"] .
    show ?thesis
    proof (cases "fst ?r = []")
      case False
      then have g: "usable f \<and> gate t st" using renderXRFrame_out_gate by blast
      then have "lastOSCSendTime (snd ?r) = t" by (simp add: renderXRFrame_last)
      moreover have "lastOSCSendTime st + 32 \<le> t" using g by (simp add: gate_def OSC_SEND_INTERVAL_def)
      ultimately show ?thesis using IH False ev by (simp add: sendTimes_def)
    next
      case True
      have "lastOSCSendTime st \<le> lastOSCSendTime (snd ?r)"
        by (simp add: renderXRFrame_last gate_def OSC_SEND_INTERVAL_def)
      then have "spaced (lastOSCSendTime st) (sendTimes (frameRun q (snd ?r) evs))"
        using spaced_mono [OF IH] by blast
      then show ?thesis using True ev by (simp add: sendTimes_def)
    qed
  qed
qed

lemma frameRun_length: "\<forall>r \<in> set (frameRun q st evs). length (snd r) \<le> 3"
proof (induction evs arbitrary: st)
  case Nil
  show ?case by simp
next
  case (Cons ev evs)
  show ?case using Cons [of "clientStep q ev st"] renderXRFrame_out_length
    by (cases ev) auto
qed

lemma filter_commute: "filter P (filter Q xs) = filter Q (filter P xs)"
  by (induction xs) auto

lemma window_times:
  "filter (\<lambda>c. t0 \<le> c \<and> c < t0 + 1000) (map fst rs) = map fst (filter (inWindow t0) rs)"
  by (induction rs) (simp_all add: inWindow_def)

lemma sending_frames_window:
  "length (filter (inWindow t0) (filter (\<lambda>r. snd r \<noteq> []) (frameRun q st evs))) \<le> 32"
proof -
  let ?run = "frameRun q st evs"
  let ?cs = "filter (\<lambda>c. t0 \<le> c \<and> c < t0 + 1000) (sendTimes ?run)"
  have sp: "spaced (lastOSCSendTime st) ?cs"
    using spaced_filter [OF frameRun_spaced] .
  have "\<forall>c \<in> set ?cs. t0 \<le> c \<and> c < t0 + 1000" by simp
  from spaced_window [OF sp this] have "length ?cs \<le> 32" .
  moreover have "?cs = map fst (filter (inWindow t0) (filter (\<lambda>r. snd r \<noteq> []) ?run))"
    unfolding sendTimes_def by (rule window_times)
  ultimately show ?thesis by simp
qed

lemma sum_length_bound:
  "\<forall>r \<in> set rs. length (snd r) \<le> 3 \<Longrightarrow>
   sum_list (map (\<lambda>r. length (snd r)) rs) \<le> 3 * length (filter (\<lambda>r. snd r \<noteq> []) rs)"
  by (induction rs) auto

lemma messages_window:
  "sum_list (map (\<lambda>r. length (snd r)) (filter (inWindow t0) (frameRun q st evs))) \<le> 96"
proof -
  have "\<forall>r \<in> set (filter (inWindow t0) (frameRun q st evs)). length (snd r) \<le> 3"
    using frameRun_length [of q st evs] by simp
  from sum_length_bound [OF this] sending_frames_window [of t0 q st evs]
  show ?thesis by (simp add: filter_commute [of "inWindow t0" "\<lambda>r. snd r \<noteq> []"] del: filter_filter)
qed

lemma fullFrame_step:
  assumes "streaming st" and "lastOSCSendTime st + 32 \<le> t"
  shows "length (fst (renderXRFrame q t fullFrame st)) = 3 \<and>
         streaming (snd (renderXRFrame q t fullFrame st)) \<and>
         lastOSCSendTime (snd (renderXRFrame q t fullFrame st)) = t"
proof -
  have g: "gate t st" using assms by (simp add: gate_def streaming_def OSC_SEND_INTERVAL_def)
  have s: "streaming (snd (renderXRFrame q t fullFrame st))"
    using assms(1) by (simp add: renderXRFrame_streaming)
  have l: "lastOSCSendTime (snd (renderXRFrame q t fullFrame st)) = t"
    using g by (simp add: renderXRFrame_last fullFrame_def)
  have o: "socketOpen st" and e: "oscEnabled st" and m: "length (controllerMarkers st) = 2"
    using assms(1) by (simp_all add: streaming_def)
  have ne: "controllerMarkers st \<noteq> []" using m by auto
  have n: "length (fst (renderXRFrame q t fullFrame st)) = 3"
    using g o e m ne
    by (simp add: renderXRFrame_def fullFrame_def frameHmd_def frameController_def sendOSCData_def
          gate_def Let_def upt_rec socketOpen_def)
  show ?thesis using s l n by simp
qed

lemma burst_counts:
  "streaming st \<Longrightarrow> lastOSCSendTime st + 32 \<le> t \<Longrightarrow>
   counts (frameRun q st (burst t n)) = map (\<lambda>k. (t + 32 * int k, 3)) [0 ..< n]"
proof (induction n arbitrary: st t)
  case 0
  show ?case by (simp add: counts_def)
next
  case (Suc n)
  let ?st = "snd (renderXRFrame q t fullFrame st)"
  have step: "length (fst (renderXRFrame q t fullFrame st)) = 3 \<and> streaming ?st \<and> lastOSCSendTime ?st = t"
    using fullFrame_step [OF Suc.prems] .
  then have "counts (frameRun q ?st (burst (t + 32) n)) = map (\<lambda>k. (t + 32 + 32 * int k, 3)) [0 ..< n]"
    using Suc.IH [of ?st "t + 32"] by simp
  moreover have "map (\<lambda>k. (t + 32 * int k, 3::nat)) [0 ..< Suc n]
                 = (t, 3) # map (\<lambda>k. (t + 32 + 32 * int k, 3)) [0 ..< n]"
    by (simp add: upt_conv_Cons map_Suc_upt [symmetric] del: upt_Suc) 
  ultimately show ?case using step by (simp add: counts_def del: upt_Suc)
qed

lemma window_sum_counts:
  "sum_list (map (\<lambda>r. length (snd r)) (filter (inWindow t0) run))
     = sum_list (map snd (filter (\<lambda>c. t0 \<le> fst c \<and> fst c < t0 + 1000) (counts run)))"
  by (induction run) (simp_all add: counts_def inWindow_def)

lemma streamingClient_streaming: "streaming streamingClient"
  by (simp add: streaming_def streamingClient_def socketOpen_def)

lemma samplingController_fields:
  "lastOSCSendTime (snd (samplingController q acc i)) = lastOSCSendTime (snd acc) \<and>
   oscEnabled (snd (samplingController q acc i)) = oscEnabled (snd acc) \<and>
   sockets (snd (samplingController q acc i)) = sockets (snd acc) \<and>
   hmdMarker (snd (samplingController q acc i)) = hmdMarker (snd acc) \<and>
   controllerMarkers (snd (samplingController q acc i)) = controllerMarkers (snd acc)"
  by (simp add: samplingController_def Let_def)

lemma samplingTick_fields:
  "lastOSCSendTime (snd (samplingTick q p st)) = lastOSCSendTime st \<and>
   oscEnabled (snd (samplingTick q p st)) = oscEnabled st \<and>
   sockets (snd (samplingTick q p st)) = sockets st \<and>
   hmdMarker (snd (samplingTick q p st)) = hmdMarker st \<and>
   controllerMarkers (snd (samplingTick q p st)) = controllerMarkers st"
  by (simp add: samplingTick_def Let_def upt_rec samplingController_fields split: option.splits)

lemma samplingTick_sends:
  assumes "streaming st" and "hmdMarker st \<noteq> None"
  shows "length (fst (samplingTick q False st)) = 3 \<and> streaming (snd (samplingTick q False st)) \<and>
         hmdMarker (snd (samplingTick q False st)) \<noteq> None"
proof -
  have o: "socketOpen st" and e: "oscEnabled st" and m: "length (controllerMarkers st) = 2"
    using assms(1) by (simp_all add: streaming_def)
  have "length (fst (samplingTick q False st)) = 3"
    using o e m assms(2)
    by (auto simp: samplingTick_def samplingController_def sendOSCData_def Let_def upt_rec socketOpen_def)
  then show ?thesis using assms by (simp add: streaming_def socketOpen_def samplingTick_fields)
qed

lemma samplingRun_counts:
  "streaming st \<Longrightarrow> hmdMarker st \<noteq> None \<Longrightarrow> map length (samplingRun q st n) = replicate n 3"
proof (induction n arbitrary: st)
  case 0
  show ?case by simp
next
  case (Suc n)
  then show ?case using samplingTick_sends [of st q] by simp
qed

text \<open>
  C1, amended. In an immersive session, whatever the frames, toggles and socket events of
  a run: of the frames whose time lies in one second at most 32 send anything, and a frame
  sends at most three payloads, one per stream, so at most 96 payloads are sent in that
  second. A frame sends only when streaming is enabled, the socket is open and its time
  is at least 32 ms after \<open>lastOSCSendTime\<close>, the time of the last frame that passed
  this test.
\<close>

theorem C1_frame_throttle:
  "length (filter (inWindow t0) (filter (\<lambda>r. snd r \<noteq> []) (frameRun q st evs))) \<le> 32 \<and>
   sum_list (map (\<lambda>r. length (snd r)) (filter (inWindow t0) (frameRun q st evs))) \<le> 96 \<and>
   (fst (renderXRFrame q t f st) \<noteq> [] \<longrightarrow>
      oscEnabled st \<and> socketOpen st \<and> 32 \<le> t - lastOSCSendTime st)"
  using sending_frames_window [of t0 q st evs] messages_window [of t0 q st evs]
    renderXRFrame_out_gate [of q t f st]
  by (auto simp: gate_def OSC_SEND_INTERVAL_def)

theorem C1_frame_throttle_witness:
  "fst (renderXRFrame flatEuler 1000 fullFrame streamingClient) \<noteq> [] \<and>
   oscEnabled streamingClient \<and> socketOpen streamingClient \<and>
   32 \<le> 1000 - lastOSCSendTime streamingClient"
proof -
  have "lastOSCSendTime streamingClient + 32 \<le> 1000" by (simp add: streamingClient_def)
  then have "length (fst (renderXRFrame flatEuler 1000 fullFrame streamingClient)) = 3"
    using fullFrame_step [OF streamingClient_streaming] by blast
  then have h: "fst (renderXRFrame flatEuler 1000 fullFrame streamingClient) \<noteq> []" by auto
  show ?thesis
    using h C1_frame_throttle [of 0 flatEuler streamingClient "[]" 1000 fullFrame] by simp
qed

text \<open>
  Eleven frames 32 ms apart, each with the three poses, send 33 payloads within one
  second. The callback of the sampling interval tests no time at all: sixty of them in a
  row send three payloads each.
\<close>

theorem C1_counterexample:
  "counts (frameRun flatEuler streamingClient (burst 1000 11)) =
     [(1000, 3), (1032, 3), (1064, 3), (1096, 3), (1128, 3), (1160, 3),
      (1192, 3), (1224, 3), (1256, 3), (1288, 3), (1320, 3)] \<and>
   sum_list (map (\<lambda>r. length (snd r))
      (filter (inWindow 1000) (frameRun flatEuler streamingClient (burst 1000 11)))) = 33 \<and>
   map length (samplingRun flatEuler streamingClient 60) = replicate 60 3"
proof -
  have l: "lastOSCSendTime streamingClient + 32 \<le> 1000" by (simp add: streamingClient_def)
  have c: "counts (frameRun flatEuler streamingClient (burst 1000 11)) =
     [(1000, 3), (1032, 3), (1064, 3), (1096, 3), (1128, 3), (1160, 3),
      (1192, 3), (1224, 3), (1256, 3), (1288, 3), (1320, 3)]"
    unfolding burst_counts [OF streamingClient_streaming l] by (simp add: upt_rec)
  have h: "hmdMarker streamingClient \<noteq> None" by (simp add: streamingClient_def)
  show ?thesis
    unfolding window_sum_counts c samplingRun_counts [OF streamingClient_streaming h] by simp
qed

section \<open>Reconnection of the transport channel\<close>

lemma socketClosed_fields:
  "reconnectTimers (socketClosed i st) = reconnectTimers st @ [3000] \<and>
   sockets (socketClosed i st) = (sockets st)[i := CLOSED] \<and>
   SERVER_URL (socketClosed i st) = SERVER_URL st"
  by (simp add: socketClosed_def onclose_def)

lemma socketFailed_fields:
  "reconnectTimers (socketFailed i st) = reconnectTimers st @ [3000] \<and>
   sockets (socketFailed i st) = (sockets st)[i := CLOSED] \<and>
   SERVER_URL (socketFailed i st) = SERVER_URL st"
  by (simp add: socketFailed_def onclose_def onerror_def)

lemma initWebSocket_busy:
  "sockets st \<noteq> [] \<and> (last (sockets st) = OPEN \<or> last (sockets st) = CONNECTING) \<Longrightarrow>
   sockets (initWebSocket st) = sockets st"
  by (auto simp: initWebSocket_def)

lemma fireReconnectTimer_busy:
  "sockets st \<noteq> [] \<and> (last (sockets st) = OPEN \<or> last (sockets st) = CONNECTING) \<Longrightarrow>
   sockets (fireReconnectTimer k st) = sockets st"
  by (auto simp: fireReconnectTimer_def initWebSocket_def)

lemma retryCycle_step:
  assumes "SERVER_URL st \<noteq> None" and "sockets st \<noteq> []" and "reconnectTimers st = []"
  shows "SERVER_URL (retryCycle st failed) \<noteq> None \<and> reconnectTimers (retryCycle st failed) = [] \<and>
         sockets (retryCycle st failed) = (sockets st)[length (sockets st) - 1 := CLOSED] @ [CONNECTING]"
proof -
  have "last ((sockets st)[length (sockets st) - 1 := CLOSED]) = CLOSED"
    using assms(2) by (simp add: last_list_update)
  then show ?thesis using assms
    by (cases failed)
       (simp_all add: retryCycle_def socketClosed_fields socketFailed_fields fireReconnectTimer_def
          initWebSocket_def)
qed

lemma retryCycles_iter:
  "SERVER_URL st \<noteq> None \<Longrightarrow> sockets st \<noteq> [] \<Longrightarrow> reconnectTimers st = [] \<Longrightarrow>
   SERVER_URL (retryCycles kinds st) \<noteq> None \<and> sockets (retryCycles kinds st) \<noteq> [] \<and>
   reconnectTimers (retryCycles kinds st) = [] \<and>
   length (sockets (retryCycles kinds st)) = length (sockets st) + length kinds"
proof (induction kinds arbitrary: st)
  case Nil
  then show ?case by (simp add: retryCycles_def)
next
  case (Cons k kinds)
  have step: "SERVER_URL (retryCycle st k) \<noteq> None \<and> reconnectTimers (retryCycle st k) = [] \<and>
         sockets (retryCycle st k) = (sockets st)[length (sockets st) - 1 := CLOSED] @ [CONNECTING]"
    using retryCycle_step [OF Cons.prems] .
  then have "SERVER_URL (retryCycles kinds (retryCycle st k)) \<noteq> None \<and>
             sockets (retryCycles kinds (retryCycle st k)) \<noteq> [] \<and>
             reconnectTimers (retryCycles kinds (retryCycle st k)) = [] \<and>
             length (sockets (retryCycles kinds (retryCycle st k)))
               = length (sockets (retryCycle st k)) + length kinds"
    using Cons.IH [of "retryCycle st k"] by simp
  then show ?case using step by (simp add: retryCycles_def)
qed

text \<open>
  C7. Every lifecycle event of a socket of kind closed, and every one of kind failed (the
  error event with the close event that follows it), sets exactly one timer of 3000 ms
  that calls \<open>initWebSocket\<close>, in every state, so without a growing delay and without a
  bound on the number of attempts: any sequence of such events, each followed by its
  reconnect attempt, opens one new connection per event. A reconnect attempt, and
  \<open>initWebSocket\<close> itself, opens no connection while the current socket is open or
  connecting.
\<close>

theorem C7_reconnect_after_close:
  "reconnectTimers (socketClosed i st) = reconnectTimers st @ [3000] \<and>
   reconnectTimers (socketFailed i st) = reconnectTimers st @ [3000] \<and>
   (sockets st \<noteq> [] \<and> (last (sockets st) = OPEN \<or> last (sockets st) = CONNECTING) \<longrightarrow>
      sockets (initWebSocket st) = sockets st \<and>
      sockets (fireReconnectTimer k st) = sockets st) \<and>
   (SERVER_URL st \<noteq> None \<and> sockets st \<noteq> [] \<and> reconnectTimers st = [] \<longrightarrow>
      length (sockets (retryCycles kinds st)) = length (sockets st) + length kinds \<and>
      reconnectTimers (retryCycles kinds st) = [])"
  using retryCycles_iter [of st kinds] initWebSocket_busy [of st] fireReconnectTimer_busy [of st k]
  by (simp add: socketClosed_fields socketFailed_fields)

theorem C7_reconnect_after_close_witness:
  "sockets streamingClient \<noteq> [] \<and>
   (last (sockets streamingClient) = OPEN \<or> last (sockets streamingClient) = CONNECTING) \<and>
   sockets (initWebSocket streamingClient) = [OPEN] \<and>
   SERVER_URL streamingClient \<noteq> None \<and> reconnectTimers streamingClient = [] \<and>
   length (sockets (retryCycles [True, False, True] streamingClient)) = 4 \<and>
   reconnectTimers (socketFailed 0 connectingClient) = [3000]"
  using C7_reconnect_after_close [of 0 streamingClient 0 "[True, False, True]"]
    C7_reconnect_after_close [of 0 connectingClient 0 "[]"]
  by (simp add: streamingClient_def connectingClient_def)

section \<open>Controllers without a grip pose\<close>

lemma updateDisplay_other:
  "i < 2 \<Longrightarrow> j \<noteq> i \<Longrightarrow> ctrlDisplay i (updateDisplay (Ctrl j) p e b d) = ctrlDisplay i d"
  by (auto simp: ctrlDisplay_def)

lemma updateDisplay_absent:
  "i < 2 \<Longrightarrow> ctrlDisplay i (updateDisplay (Ctrl i) zeroPosition zeroEuler False d) = shownAbsent"
  by (auto simp: ctrlDisplay_def shownAbsent_def posText_def rotText_def btnText_def
        zeroPosition_def zeroEuler_def)

lemma frameController_display_other:
  "i < 2 \<Longrightarrow> j \<noteq> i \<Longrightarrow>
   ctrlDisplay i (display (snd (frameController q g srcs acc j))) = ctrlDisplay i (display (snd acc))"
  by (simp add: frameController_def Let_def updateDisplay_other del: updateDisplay.simps split: grip.splits)

lemma frameController_display_absent:
  "i < 2 \<Longrightarrow> i < length (controllerMarkers (snd acc)) \<Longrightarrow> \<forall>p. grip (srcs ! i) \<noteq> GripPose p \<Longrightarrow>
   ctrlDisplay i (display (snd (frameController q g srcs acc i))) = shownAbsent"
  by (simp add: frameController_def Let_def updateDisplay_absent del: updateDisplay.simps split: grip.splits)

lemma foldl_frameController_display_other:
  "i < 2 \<Longrightarrow> i \<notin> set js \<Longrightarrow>
   ctrlDisplay i (display (snd (foldl (frameController q g srcs) acc js))) = ctrlDisplay i (display (snd acc))"
  by (induction js arbitrary: acc) (auto simp: frameController_display_other)

lemma foldl_frameController_display_absent:
  "i < 2 \<Longrightarrow> i \<in> set js \<Longrightarrow> i < length (controllerMarkers (snd acc)) \<Longrightarrow>
   \<forall>p. grip (srcs ! i) \<noteq> GripPose p \<Longrightarrow>
   ctrlDisplay i (display (snd (foldl (frameController q g srcs) acc js))) = shownAbsent"
proof (induction js arbitrary: acc)
  case Nil
  then show ?case by simp
next
  case (Cons j js)
  let ?acc = "frameController q g srcs acc j"
  have len: "i < length (controllerMarkers (snd ?acc))"
    using Cons.prems(3) by (simp add: frameController_fields)
  show ?case
  proof (cases "i \<in> set js")
    case True
    then show ?thesis using Cons.IH [of ?acc] Cons.prems(1,4) len by simp
  next
    case False
    then have "j = i" using Cons.prems(2) by simp
    then show ?thesis
      using False Cons.prems foldl_frameController_display_other [of i js q g srcs ?acc]
        frameController_display_absent [of i acc srcs q g]
      by simp
  qed
qed

lemma frameHide_display_other:
  "i < 2 \<Longrightarrow> j \<noteq> i \<Longrightarrow> ctrlDisplay i (display (frameHide st j)) = ctrlDisplay i (display st)"
  by (simp add: frameHide_def updateDisplay_other del: updateDisplay.simps)

lemma frameHide_display_absent:
  "i < 2 \<Longrightarrow> i < length (controllerMarkers st) \<Longrightarrow>
   ctrlDisplay i (display (frameHide st i)) = shownAbsent"
  by (simp add: frameHide_def updateDisplay_absent del: updateDisplay.simps)

lemma foldl_frameHide_display_other:
  "i < 2 \<Longrightarrow> i \<notin> set js \<Longrightarrow>
   ctrlDisplay i (display (foldl frameHide st js)) = ctrlDisplay i (display st)"
  by (induction js arbitrary: st) (auto simp: frameHide_display_other)

lemma foldl_frameHide_display_absent:
  "i < 2 \<Longrightarrow> i \<in> set js \<Longrightarrow> i < length (controllerMarkers st) \<Longrightarrow>
   ctrlDisplay i (display (foldl frameHide st js)) = shownAbsent"
proof (induction js arbitrary: st)
  case Nil
  then show ?case by simp
next
  case (Cons j js)
  have len: "i < length (controllerMarkers (frameHide st j))"
    using Cons.prems(3) by (simp add: frameHide_fields)
  show ?case
  proof (cases "i \<in> set js")
    case True
    then show ?thesis using Cons.IH [of "frameHide st j"] Cons.prems(1) len by simp
  next
    case False
    then have "j = i" using Cons.prems(2) by simp
    then show ?thesis
      using False Cons.prems foldl_frameHide_display_other [of i js "frameHide st i"]
        frameHide_display_absent [of i st]
      by simp
  qed
qed

lemma renderXRFrame_display_absent:
  assumes "usable f" and "i < 2" and "i < length (controllerMarkers st)"
      and "i < length (inputSources f) \<longrightarrow> (\<forall>p. grip (inputSources f ! i) \<noteq> GripPose p)"
  shows "ctrlDisplay i (display (snd (renderXRFrame q t f st))) = shownAbsent"
proof -
  let ?g = "gate t st"
  let ?n = "length (inputSources f)"
  let ?a1 = "frameHmd q ?g (viewerPose f) st"
  let ?a2 = "foldl (frameController q ?g (inputSources f)) ?a1 [0 ..< min ?n 2]"
  let ?st3 = "foldl frameHide (snd ?a2) [?n ..< length (controllerMarkers (snd ?a2))]"
  have len1: "i < length (controllerMarkers (snd ?a1))" using assms(3) by (simp add: frameHmd_fields)
  have len2: "length (controllerMarkers (snd ?a2)) = length (controllerMarkers st)"
    by (simp add: foldl_frameController_fields frameHmd_fields)
  have d: "display (snd (renderXRFrame q t f st)) = display ?st3"
    using assms(1) by (simp add: renderXRFrame_def Let_def gate_def)
  have "ctrlDisplay i (display ?st3) = shownAbsent"
  proof (cases "i < ?n")
    case True
    then have "i \<in> set [0 ..< min ?n 2]" using assms(2) by simp
    then have "ctrlDisplay i (display (snd ?a2)) = shownAbsent"
      using foldl_frameController_display_absent [OF assms(2) _ len1] assms(4) True by blast
    moreover have "i \<notin> set [?n ..< length (controllerMarkers (snd ?a2))]" using True by simp
    ultimately show ?thesis using foldl_frameHide_display_other [OF assms(2)] by simp
  next
    case False
    then have "i \<in> set [?n ..< length (controllerMarkers (snd ?a2))]"
      using assms(3) len2 by simp
    then show ?thesis
      using foldl_frameHide_display_absent [OF assms(2), of _ "snd ?a2"] assms(3) len2 by simp
  qed
  then show ?thesis unfolding d .
qed

lemma controllerAddress_inj: "i < 2 \<Longrightarrow> j < 2 \<Longrightarrow> controllerAddress j = controllerAddress i \<Longrightarrow> j = i"
  by (auto simp: controllerAddress_def split: if_splits)

lemma controllerAddress_not_hmd: "controllerAddress i \<noteq> ''/hmd/pose''"
  by (simp add: controllerAddress_def)

lemma sendOSCData_address: "m \<in> set (sendOSCData q opn a p quat b) \<Longrightarrow> wireAddress m = a"
  by (auto simp: sendOSCData_def Let_def split: if_splits)

lemma frameHmd_address: "m \<in> set (fst (frameHmd q g v st)) \<Longrightarrow> wireAddress m = ''/hmd/pose''"
  by (auto simp: frameHmd_def Let_def dest: sendOSCData_address split: option.splits if_splits)

lemma frameController_address:
  "m \<in> set (fst (frameController q g srcs acc j)) \<Longrightarrow>
   m \<in> set (fst acc) \<or> (wireAddress m = controllerAddress j \<and> (\<exists>p. grip (srcs ! j) = GripPose p))"
  by (auto simp: frameController_def Let_def dest: sendOSCData_address split: grip.splits if_splits)

lemma foldl_frameController_address:
  "m \<in> set (fst (foldl (frameController q g srcs) acc js)) \<Longrightarrow>
   m \<in> set (fst acc) \<or>
   (\<exists>j \<in> set js. wireAddress m = controllerAddress j \<and> (\<exists>p. grip (srcs ! j) = GripPose p))"
proof (induction js arbitrary: acc)
  case Nil
  then show ?case by simp
next
  case (Cons j js)
  from Cons.IH [OF Cons.prems [simplified]] frameController_address [of m q g srcs acc j]
  show ?case by auto
qed

lemma renderXRFrame_no_message:
  assumes "i < 2"
      and "i < length (inputSources f) \<longrightarrow> (\<forall>p. grip (inputSources f ! i) \<noteq> GripPose p)"
      and "m \<in> set (fst (renderXRFrame q t f st))"
  shows "wireAddress m \<noteq> controllerAddress i"
proof
  assume a: "wireAddress m = controllerAddress i"
  let ?g = "gate t st"
  let ?n = "length (inputSources f)"
  let ?a1 = "frameHmd q ?g (viewerPose f) st"
  have u: "usable f" using assms(3) by (auto simp: renderXRFrame_def split: if_splits)
  then have "m \<in> set (fst (foldl (frameController q ?g (inputSources f)) ?a1 [0 ..< min ?n 2]))"
    using assms(3) by (simp add: renderXRFrame_def Let_def gate_def)
  then have "m \<in> set (fst ?a1) \<or>
     (\<exists>j \<in> set [0 ..< min ?n 2]. wireAddress m = controllerAddress j \<and>
        (\<exists>p. grip (inputSources f ! j) = GripPose p))"
    by (rule foldl_frameController_address)
  then show False
  proof
    assume "m \<in> set (fst ?a1)"
    then show False using frameHmd_address a controllerAddress_not_hmd [of i] by metis
  next
    assume "\<exists>j \<in> set [0 ..< min ?n 2]. wireAddress m = controllerAddress j \<and>
        (\<exists>p. grip (inputSources f ! j) = GripPose p)"
    then obtain j p where j: "j < ?n" "j < 2" "wireAddress m = controllerAddress j"
        "grip (inputSources f ! j) = GripPose p" by auto
    then have "j = i" using a controllerAddress_inj [OF assms(1), of j] by simp
    then show False using j assms(2) by simp
  qed
qed

text \<open>
  C6, amended. In a frame in which controller \<open>i\<close> has no grip pose (no input source, no
  grip space, or no pose for it), and with the preview markers set up, \<open>renderXRFrame\<close>
  sends no payload addressed to that controller, and the page shows for it the position
  \<open>0, 0, 0\<close>, the rotation \<open>0, 0, 0\<close> and the button text \<^verbatim>\<open>Released\<close>.
\<close>

theorem C6_absent_grip_display_only:
  "usable f \<and> i < 2 \<and> i < length (controllerMarkers st) \<and>
   (i < length (inputSources f) \<longrightarrow> (\<forall>p. grip (inputSources f ! i) \<noteq> GripPose p)) \<longrightarrow>
     (\<forall>m \<in> set (fst (renderXRFrame q t f st)). wireAddress m \<noteq> controllerAddress i) \<and>
     ctrlDisplay i (display (snd (renderXRFrame q t f st))) = (Shown 0 0 0, Shown 0 0 0, ''Released'')"
  using renderXRFrame_display_absent [of f i st q t] renderXRFrame_no_message [of i f _ q t st]
  by (auto simp: shownAbsent_def)

theorem C6_absent_grip_display_only_witness:
  "usable lostGripFrame \<and> (0::nat) < 2 \<and> 0 < length (controllerMarkers streamingClient) \<and>
   0 < length (inputSources lostGripFrame) \<and> grip (inputSources lostGripFrame ! 0) = NoGripPose \<and>
   ctrlDisplay 0 (display (snd (renderXRFrame flatEuler 1000 lostGripFrame streamingClient)))
     = (Shown 0 0 0, Shown 0 0 0, ''Released'')"
proof -
  have h: "usable lostGripFrame \<and> (0::nat) < 2 \<and> 0 < length (controllerMarkers streamingClient) \<and>
           (0 < length (inputSources lostGripFrame) \<longrightarrow>
              (\<forall>p. grip (inputSources lostGripFrame ! 0) \<noteq> GripPose p))"
    by (simp add: lostGripFrame_def streamingClient_def)
  have g: "0 < length (inputSources lostGripFrame) \<and> grip (inputSources lostGripFrame ! 0) = NoGripPose"
    by (simp add: lostGripFrame_def)
  show ?thesis
    using h g C6_absent_grip_display_only [of lostGripFrame 0 streamingClient flatEuler 1000]
    by simp
qed

text \<open>
  A frame that passes the throttle gate with a viewer pose and a controller without grip
  pose sends the HMD payload only; the button text of the controller is \<^verbatim>\<open>Released\<close>.
\<close>

theorem C6_counterexample:
  "map wireAddress (fst (renderXRFrame flatEuler 1000 lostGripFrame streamingClient)) = [''/hmd/pose''] \<and>
   ctrl0BtnEl (display (snd (renderXRFrame flatEuler 1000 lostGripFrame streamingClient))) = ''Released''"
  by (simp add: renderXRFrame_def frameHmd_def frameController_def frameHide_def sendOSCData_def
        lostGripFrame_def streamingClient_def socketOpen_def OSC_SEND_INTERVAL_def Let_def upt_rec
        btnText_def)

end
